theory Spec2Isabelle
  imports Complex_Main "HOL-Library.Word"
begin

section \<open>The audio normalizer: data model\<close>

text \<open>
  The repository holds two variants of the same program, both \<^verbatim>\<open>package main\<close>:
  \<^verbatim>\<open>main.go\<close> (the output slot is claimed by an exclusive create, the transcoder is run
  through the ffmpeg-go library, the rename is unchecked) and \<^verbatim>\<open>unnamed/part_000\<close> (no
  claim, the transcoder is run by \<^verbatim>\<open>exec.CommandContext\<close> under a 3 second deadline, the
  output is validated, the rename is checked). Functions that are the same text in both files
  (\<^verbatim>\<open>respond\<close>, \<^verbatim>\<open>httpError\<close>, \<^verbatim>\<open>sha256Hex\<close>, \<^verbatim>\<open>ternary\<close>) are embedded once; \<^verbatim>\<open>process\<close> and
  \<^verbatim>\<open>normalizeHandler\<close> are embedded twice, the one of \<^verbatim>\<open>part_000\<close> under the suffix
  \<open>_part000\<close>.
\<close>

type_synonym byte = "8 word"
type_synonym path = string

text \<open>The file system: a path holds the bytes of a regular file, or nothing.\<close>

type_synonym fsys = "path \<Rightarrow> byte list option"

text \<open>The constants of both files.\<close>

definition MaxUploadSize :: nat where
  "MaxUploadSize = 10 * 2 ^ 20"

definition SampleRate :: nat where
  "SampleRate = 16000"

definition StorageDir :: string where
  "StorageDir = ''storage/normalized''"

definition WorkerCount :: nat where
  "WorkerCount = 4"

text \<open>The capacity of \<^verbatim>\<open>jobQueue = make(chan Job, 32)\<close>.\<close>

definition QueueCap :: nat where
  "QueueCap = 32"

text \<open>
  What the program takes from its platform: \<^verbatim>\<open>sha256.Sum256\<close> (the standard library's
  digest, a parameter here) and the directory \<^verbatim>\<open>os.TempDir()\<close> returns.
\<close>

record platform =
  Sum256 :: "byte list \<Rightarrow> byte list"
  TempDir :: string

text \<open>
  \<^verbatim>\<open>context.Context\<close>: the request's own context, or one derived from it by
  \<^verbatim>\<open>context.WithTimeout\<close> (the duration in seconds). What \<^verbatim>\<open>ctx.Err()\<close> returns when
  the worker looks at it is \<open>ctx_err\<close>.
\<close>

datatype Context = RequestContext | WithTimeout nat Context

datatype ctx_err = CtxNil | DeadlineExceeded | Canceled

text \<open>
  \<^verbatim>\<open>type Job struct\<close>. The field \<open>result\<close> is the identity of the channel
  \<^verbatim>\<open>make(chan Result, 1)\<close> the handler made for this Job.
\<close>

record Job =
  ctx :: Context
  data :: "byte list"
  hash :: string
  ext :: string
  outPath :: path
  result :: nat

text \<open>
  \<^verbatim>\<open>type Result struct\<close>. \<open>Err\<close> is \<open>None\<close> for \<^verbatim>\<open>nil\<close> and otherwise holds
  \<^verbatim>\<open>err.Error()\<close>. No code path assigns \<open>Duration\<close>.
\<close>

record Result =
  Duration :: real
  Size :: int
  Sha256 :: string
  Err :: "string option"

text \<open>
  An upload as the handler sees it: the multipart form either fails to parse or yields at
  most one part under the name \<^verbatim>\<open>file\<close>; the part has a file name and a body, reading the
  body can fail. \<open>bufCap\<close> is the capacity of the slice \<^verbatim>\<open>io.ReadAll\<close> returned for the
  body.
\<close>

record upload =
  Filename :: string
  body :: "byte list"
  readErr :: "string option"
  bufCap :: nat

record request =
  formErr :: "string option"
  fileField :: "upload option"

text \<open>
  What the environment decides during one attempt: whether \<^verbatim>\<open>os.OpenFile\<close> of the claim,
  \<^verbatim>\<open>os.WriteFile\<close> of the temporary input and \<^verbatim>\<open>os.Rename\<close> fail for a reason of the
  system's (\<open>None\<close>: no such fault), and what one run of the external transcoder does:
  whether \<^verbatim>\<open>Run()\<close> returns an error, what it wrote to standard error, the bytes it left
  at its output path (\<open>None\<close>: it wrote no file), and \<^verbatim>\<open>job.ctx.Err()\<close> afterwards.
\<close>

record env =
  openFault :: "string option"
  writeFault :: "string option"
  runFailed :: bool
  stderr :: string
  written :: "byte list option"
  ctxErr :: ctx_err
  renameFault :: "string option"

text \<open>
  What a request ends with: the JSON body of \<^verbatim>\<open>respond\<close> (the fields read from the clock,
  \<^verbatim>\<open>transactionId\<close>, \<^verbatim>\<open>processingMs\<close> and \<^verbatim>\<open>createdAt\<close>, are left out), the status code,
  code and message of \<^verbatim>\<open>httpError\<close>, or a run-time panic of the handler's goroutine (no
  response is written then).
\<close>

record response =
  fileId :: string
  originalFilename :: string
  normalizedFilename :: string
  sampleRate :: nat
  channels :: nat
  encoding :: string
  sizeBytes :: int
  status :: string

datatype panic = SliceBoundsOutOfRange | NilDereference

datatype outcome = Responded response | HttpError nat string string | Panicked panic

text \<open>What one run of the handler leaves: the file system, the Jobs it sent, its outcome.\<close>

record hresult =
  store :: fsys
  enqueued :: "Job list"
  outcome :: outcome

section \<open>Library functions the program calls\<close>

text \<open>
  \<^verbatim>\<open>hex.EncodeToString\<close>: two digits of \<^verbatim>\<open>0123456789abcdef\<close> per byte, high nibble first.
\<close>

definition hextable :: string where
  "hextable = ''0123456789abcdef''"

definition hexbyte :: "byte \<Rightarrow> string" where
  "hexbyte b = [hextable ! (unat b div 16), hextable ! (unat b mod 16)]"

definition EncodeToString :: "byte list \<Rightarrow> string" where
  "EncodeToString bs = concat (map hexbyte bs)"

text \<open>
  \<^verbatim>\<open>strings.ToLower\<close> on the bytes of a string: the letters A to Z are mapped, every other
  byte is kept.
\<close>

definition lowerChar :: "char \<Rightarrow> char" where
  "lowerChar c =
     (case map_of (zip ''ABCDEFGHIJKLMNOPQRSTUVWXYZ'' ''abcdefghijklmnopqrstuvwxyz'') c of
        Some l \<Rightarrow> l
      | None \<Rightarrow> c)"

definition ToLower :: "string \<Rightarrow> string" where
  "ToLower s = map lowerChar s"

text \<open>
  \<^verbatim>\<open>filepath.Ext\<close>: scanning from the end and stopping at a separator, the suffix from the
  last dot of the last element; empty when there is none.
\<close>

fun extScan :: "string \<Rightarrow> string \<Rightarrow> string" where
  "extScan [] acc = []"
| "extScan (c # cs) acc =
     (if c = CHR ''/'' then []
      else if c = CHR ''.'' then c # acc
      else extScan cs (c # acc))"

definition Ext :: "string \<Rightarrow> string" where
  "Ext p = extScan (rev p) []"

text \<open>
  \<^verbatim>\<open>filepath.Base\<close>: the last element of the path, trailing separators dropped; \<^verbatim>\<open>.\<close> for
  the empty path and \<^verbatim>\<open>/\<close> for a path of separators only.
\<close>

definition Base :: "string \<Rightarrow> string" where
  "Base p =
     (if p = [] then ''.''
      else let q = dropWhile (\<lambda>c. c = CHR ''/'') (rev p)
           in if q = [] then ''/'' else rev (takeWhile (\<lambda>c. c \<noteq> CHR ''/'') q))"

text \<open>
  \<^verbatim>\<open>filepath.Join\<close> of a directory and a file name, for a directory that is already clean
  and a name without separator (here: hexadecimal digits and an extension), where
  \<^verbatim>\<open>Clean\<close> has nothing to rewrite.
\<close>

definition Join :: "string \<Rightarrow> string \<Rightarrow> string" where
  "Join dir name =
     (if dir = [] then name
      else if last dir = CHR ''/'' then dir @ name
      else dir @ ''/'' @ name)"

text \<open>\<^verbatim>\<open>os.Remove\<close> (its error is ignored at every call) and \<^verbatim>\<open>os.Rename\<close>.\<close>

definition Remove :: "fsys \<Rightarrow> path \<Rightarrow> fsys" where
  "Remove fs p = fs(p := None)"

definition Rename :: "string option \<Rightarrow> fsys \<Rightarrow> path \<Rightarrow> path \<Rightarrow> fsys \<times> string option" where
  "Rename fault fs old new =
     (case fault of
        Some e \<Rightarrow> (fs, Some e)
      | None \<Rightarrow>
          (case fs old of
             None \<Rightarrow> (fs, Some (''rename '' @ old @ '' '' @ new @ '': no such file or directory''))
           | Some b \<Rightarrow> ((fs(old := None))(new \<mapsto> b), None)))"

section \<open>The functions of the program\<close>

definition ternary :: "bool \<Rightarrow> 'a \<Rightarrow> 'a \<Rightarrow> 'a" where
  "ternary cond a b = (if cond then a else b)"

definition sha256Hex :: "platform \<Rightarrow> byte list \<Rightarrow> string" where
  "sha256Hex P b = EncodeToString (Sum256 P b)"

text \<open>The two paths the handler derives from the hash.\<close>

definition outPathOf :: "string \<Rightarrow> path" where
  "outPathOf h = Join StorageDir (h @ ''.wav'')"

definition tmpPathOf :: "string \<Rightarrow> path" where
  "tmpPathOf h = outPathOf h @ ''.tmp''"

text \<open>
  \<^verbatim>\<open>respond\<close>: \<^verbatim>\<open>info, _ := os.Stat(path)\<close> drops the error, so for a missing file
  \<open>info\<close> is nil and \<^verbatim>\<open>info.Size()\<close> panics.
\<close>

definition respond :: "fsys \<Rightarrow> string \<Rightarrow> string \<Rightarrow> path \<Rightarrow> bool \<Rightarrow> outcome" where
  "respond fs h original p skipped =
     (case fs p of
        None \<Rightarrow> Panicked NilDereference
      | Some b \<Rightarrow>
          Responded \<lparr> fileId = h, originalFilename = original, normalizedFilename = Base p,
            sampleRate = SampleRate, channels = 1, encoding = ''pcm_s16le'',
            sizeBytes = int (length b),
            status = ternary skipped ''skipped'' ''done'' \<rparr>)"

definition httpError :: "nat \<Rightarrow> string \<Rightarrow> string \<Rightarrow> outcome" where
  "httpError statusCode code msg = HttpError statusCode code msg"

text \<open>
  \<^verbatim>\<open>process\<close> of \<^verbatim>\<open>main.go\<close>. The transcoder is run without the Job's context; its error
  is reported as \<^verbatim>\<open>ffmpeg: <stderr>\<close>. The output is opened and hashed without a check:
  with no file there, \<^verbatim>\<open>os.Open\<close> returns a nil file, \<^verbatim>\<open>io.Copy\<close> copies nothing and its error
  is dropped. The deferred \<^verbatim>\<open>os.Remove(tmpInput)\<close> runs on every return after the write.
\<close>

definition process :: "platform \<Rightarrow> env \<Rightarrow> Job \<Rightarrow> fsys \<Rightarrow> fsys \<times> Result" where
  "process P e job fs =
     (let tmpInput = Join (TempDir P) (hash job @ ext job);
          tmpOutput = outPath job
      in case writeFault e of
           Some err \<Rightarrow> (fs, \<lparr> Duration = 0, Size = 0, Sha256 = [], Err = Some err \<rparr>)
         | None \<Rightarrow>
             (let fs1 = fs(tmpInput \<mapsto> data job);
                  fs2 = (case written e of None \<Rightarrow> fs1 | Some b \<Rightarrow> fs1(tmpOutput \<mapsto> b))
              in if runFailed e
                 then (Remove fs2 tmpInput,
                       \<lparr> Duration = 0, Size = 0, Sha256 = [], Err = Some (''ffmpeg: '' @ stderr e) \<rparr>)
                 else (let bs = (case fs2 tmpOutput of None \<Rightarrow> [] | Some b \<Rightarrow> b)
                       in (Remove fs2 tmpInput,
                           \<lparr> Duration = 0, Size = int (length bs),
                             Sha256 = EncodeToString (Sum256 P bs), Err = None \<rparr>))))"

text \<open>
  \<^verbatim>\<open>process\<close> of \<^verbatim>\<open>part_000\<close>. The command is made by \<^verbatim>\<open>exec.CommandContext(job.ctx, ...)\<close>;
  after a failed run \<^verbatim>\<open>job.ctx.Err()\<close> selects the message. The output is validated by
  \<^verbatim>\<open>os.Stat\<close>: a missing file and a file of size zero are errors.
\<close>

definition process_part000 :: "platform \<Rightarrow> env \<Rightarrow> Job \<Rightarrow> fsys \<Rightarrow> fsys \<times> Result" where
  "process_part000 P e job fs =
     (let tmpInput = Join (TempDir P) (hash job @ ext job);
          tmpOutput = outPath job
      in case writeFault e of
           Some err \<Rightarrow> (fs, \<lparr> Duration = 0, Size = 0, Sha256 = [], Err = Some err \<rparr>)
         | None \<Rightarrow>
             (let fs1 = fs(tmpInput \<mapsto> data job);
                  fs2 = (case written e of None \<Rightarrow> fs1 | Some b \<Rightarrow> fs1(tmpOutput \<mapsto> b))
              in if runFailed e
                 then (Remove fs2 tmpInput,
                       \<lparr> Duration = 0, Size = 0, Sha256 = [],
                         Err = Some (if ctxErr e = DeadlineExceeded then ''ffmpeg timed out''
                                     else if ctxErr e = Canceled then ''request cancelled''
                                     else ''ffmpeg failed: '' @ stderr e) \<rparr>)
                 else (case fs2 tmpOutput of
                         None \<Rightarrow>
                           (Remove fs2 tmpInput,
                            \<lparr> Duration = 0, Size = 0, Sha256 = [],
                              Err = Some (''stat '' @ tmpOutput @ '': no such file or directory'') \<rparr>)
                       | Some bs \<Rightarrow>
                           if length bs = 0
                           then (Remove fs2 tmpInput,
                                 \<lparr> Duration = 0, Size = 0, Sha256 = [],
                                   Err = Some ''ffmpeg produced empty output'' \<rparr>)
                           else (Remove fs2 tmpInput,
                                 \<lparr> Duration = 0, Size = int (length bs),
                                   Sha256 = EncodeToString (Sum256 P bs), Err = None \<rparr>))))"

text \<open>
  The checks both handlers make before they hash, in the order of the source. The slice
  expression \<^verbatim>\<open>data[:16]\<close> of the debug print is in range when 16 is at most the capacity
  of \<open>data\<close> (for a slice the upper bound is the capacity, not the length), and panics
  otherwise. A request that passes yields the file name, the lowered extension and the body.
\<close>

definition validate :: "request \<Rightarrow> outcome + (string \<times> string \<times> byte list)" where
  "validate r =
     (case formErr r of
        Some err \<Rightarrow> Inl (httpError 400 ''INVALID_FORM'' err)
      | None \<Rightarrow>
          (case fileField r of
             None \<Rightarrow> Inl (httpError 400 ''NO_FILE'' ''missing file field'')
           | Some u \<Rightarrow>
               (let x = ToLower (Ext (Filename u))
                in if x \<noteq> ''.mp3'' \<and> x \<noteq> ''.wav''
                   then Inl (httpError 400 ''UNSUPPORTED_FORMAT'' ''only mp3 and wav supported'')
                   else (case readErr u of
                           Some err \<Rightarrow> Inl (httpError 500 ''READ_FAILED'' err)
                         | None \<Rightarrow>
                             if int (length (body u)) > int MaxUploadSize
                             then Inl (httpError 400 ''FILE_TOO_LARGE'' ''max upload size is 10MB'')
                             else if \<not> 16 \<le> bufCap u
                             then Inl (Panicked SliceBoundsOutOfRange)
                             else Inr (Filename u, x, body u)))))"

text \<open>
  \<^verbatim>\<open>normalizeHandler\<close> of \<^verbatim>\<open>main.go\<close>, run with no other request in between: the worker's
  \<^verbatim>\<open>process\<close> runs on the file system the handler left when it sent the Job.
\<close>

definition normalizeHandler :: "platform \<Rightarrow> env \<Rightarrow> nat \<Rightarrow> request \<Rightarrow> fsys \<Rightarrow> hresult" where
  "normalizeHandler P e ch r fs =
     (case validate r of
        Inl out \<Rightarrow> \<lparr> store = fs, enqueued = [], outcome = out \<rparr>
      | Inr (original, x, d) \<Rightarrow>
          (let h = sha256Hex P d;
               outp = outPathOf h
           in if fs outp \<noteq> None
              then \<lparr> store = fs, enqueued = [], outcome = respond fs h original outp True \<rparr>
              else
                (let tmpPath = outp @ ''.tmp''
                 in case openFault e of
                      Some err \<Rightarrow>
                        \<lparr> store = fs, enqueued = [], outcome = httpError 500 ''FS_ERROR'' err \<rparr>
                    | None \<Rightarrow>
                        if fs tmpPath \<noteq> None
                        then \<lparr> store = fs, enqueued = [],
                               outcome = respond fs h original outp True \<rparr>
                        else
                          (let fs1 = fs(tmpPath \<mapsto> []);
                               job = \<lparr> ctx = RequestContext, data = d, hash = h, ext = x,
                                       outPath = tmpPath, result = ch \<rparr>;
                               (fs2, res) = process P e job fs1
                           in case Err res of
                                Some msg \<Rightarrow>
                                  \<lparr> store = Remove fs2 tmpPath, enqueued = [job],
                                    outcome = httpError 500 ''FFMPEG_FAILED'' msg \<rparr>
                              | None \<Rightarrow>
                                  (let fs3 = fst (Rename (renameFault e) fs2 tmpPath outp)
                                   in \<lparr> store = fs3, enqueued = [job],
                                        outcome = respond fs3 h original outp False \<rparr>)))))"

text \<open>
  \<^verbatim>\<open>normalizeHandler\<close> of \<^verbatim>\<open>part_000\<close>, run with no other request in between. There is no
  claim: the temporary path is only a name handed to the Job.
\<close>

definition normalizeHandler_part000 :: "platform \<Rightarrow> env \<Rightarrow> nat \<Rightarrow> request \<Rightarrow> fsys \<Rightarrow> hresult" where
  "normalizeHandler_part000 P e ch r fs =
     (case validate r of
        Inl out \<Rightarrow> \<lparr> store = fs, enqueued = [], outcome = out \<rparr>
      | Inr (original, x, d) \<Rightarrow>
          (let h = sha256Hex P d;
               outp = outPathOf h
           in if fs outp \<noteq> None
              then \<lparr> store = fs, enqueued = [], outcome = respond fs h original outp True \<rparr>
              else
                (let tmpPath = outp @ ''.tmp'';
                     job = \<lparr> ctx = WithTimeout 3 RequestContext, data = d, hash = h, ext = x,
                             outPath = tmpPath, result = ch \<rparr>;
                     (fs2, res) = process_part000 P e job fs
                 in case Err res of
                      Some msg \<Rightarrow>
                        \<lparr> store = Remove fs2 tmpPath, enqueued = [job],
                          outcome = httpError 500 ''FFMPEG_FAILED'' msg \<rparr>
                    | None \<Rightarrow>
                        (case Rename (renameFault e) fs2 tmpPath outp of
                           (fs3, Some msg) \<Rightarrow>
                             \<lparr> store = Remove fs3 tmpPath, enqueued = [job],
                               outcome = httpError 500 ''FS_ERROR'' msg \<rparr>
                         | (fs3, None) \<Rightarrow>
                             \<lparr> store = fs3, enqueued = [job],
                               outcome = respond fs3 h original outp False \<rparr>))))"

section \<open>The program as a system of concurrent requests\<close>

text \<open>
  Requests are served concurrently, each by its own goroutine, and \<^verbatim>\<open>WorkerCount\<close> workers
  receive from \<^verbatim>\<open>jobQueue\<close>. The state of the whole is the file system, the queue, the Jobs
  the workers are running, the result channels (each buffered for one \<^verbatim>\<open>Result\<close>), and, per
  request, where its handler stands. \<open>invocations\<close> counts per content hash how often the
  transcoder was run; the program does not read it.
\<close>

datatype variant = MainGo | Part000

text \<open>
  Where a handler stands: the constructor names the next operation on the shared state, and
  carries the handler's locals, \<^verbatim>\<open>header.Filename\<close> and the fields of the \<^verbatim>\<open>Job\<close> (the
  hash, the extension, the data, \<^verbatim>\<open>tmpPath\<close> as \<open>outPath\<close>, the result channel).
  \<open>AtStat\<close>: \<^verbatim>\<open>os.Stat(outPath)\<close>; \<open>AtClaim\<close>: \<^verbatim>\<open>os.OpenFile(tmpPath, O_CREATE|O_EXCL)\<close>
  (\<^verbatim>\<open>main.go\<close> only); \<open>AtSend\<close>: \<^verbatim>\<open>jobQueue <- job\<close>; \<open>AtReceive\<close>: \<^verbatim>\<open><-job.result\<close>;
  \<open>AtAbandon\<close>: \<^verbatim>\<open>os.Remove(tmpPath)\<close> followed by the error response it carries;
  \<open>AtFinalize\<close>: \<^verbatim>\<open>os.Rename(tmpPath, outPath)\<close>; \<open>AtRespond\<close>: the \<^verbatim>\<open>os.Stat\<close> inside
  \<^verbatim>\<open>respond\<close>; \<open>Finished\<close>: the handler has returned or panicked.
\<close>

datatype pc =
    AtStat string Job
  | AtClaim string Job
  | AtSend string Job
  | AtReceive string Job
  | AtAbandon string Job outcome
  | AtFinalize string Job
  | AtRespond string Job bool
  | Finished outcome

record system =
  files :: fsys
  jobQueue :: "Job list"
  running :: "Job list"
  results :: "nat \<Rightarrow> Result option"
  handlers :: "nat \<Rightarrow> pc option"
  invocations :: "string \<Rightarrow> nat"

text \<open>
  What can happen next: a request arrives under a fresh number; the handler of a request
  makes its next operation (the environment deciding the faults); a worker receives the Job
  at the head of the queue; the worker running the Job of a request completes \<^verbatim>\<open>process\<close>
  and sends the \<^verbatim>\<open>Result\<close>. The operations of \<^verbatim>\<open>process\<close> are taken as one step.
\<close>

datatype action = Arrive nat request | Handler nat env | Take | Complete nat env

definition initial :: "fsys \<Rightarrow> system" where
  "initial fs = \<lparr> files = fs, jobQueue = [], running = [], results = (\<lambda>n. None),
                  handlers = (\<lambda>n. None), invocations = (\<lambda>h. 0) \<rparr>"

text \<open>
  One operation of a handler. Sending blocks (no step) while the queue holds \<^verbatim>\<open>QueueCap\<close>
  Jobs, receiving blocks while the result channel is empty. \<^verbatim>\<open>main.go\<close> claims before it
  sends and ignores the error of the rename; \<^verbatim>\<open>part_000\<close> does not claim and abandons on a
  failed rename.
\<close>

fun handlerStep :: "variant \<Rightarrow> env \<Rightarrow> nat \<Rightarrow> pc \<Rightarrow> system \<Rightarrow> system option" where
  "handlerStep V e n (AtStat a j) s =
     Some (if files s (outPathOf (hash j)) \<noteq> None
           then s \<lparr> handlers := (handlers s)(n \<mapsto> AtRespond a j True) \<rparr>
           else s \<lparr> handlers := (handlers s)(n \<mapsto>
                      (case V of MainGo \<Rightarrow> AtClaim a j | Part000 \<Rightarrow> AtSend a j)) \<rparr>)"
| "handlerStep V e n (AtClaim a j) s =
     Some (case openFault e of
             Some err \<Rightarrow>
               s \<lparr> handlers := (handlers s)(n \<mapsto> Finished (httpError 500 ''FS_ERROR'' err)) \<rparr>
           | None \<Rightarrow>
               if files s (outPath j) \<noteq> None
               then s \<lparr> handlers := (handlers s)(n \<mapsto> AtRespond a j True) \<rparr>
               else s \<lparr> files := (files s)(outPath j \<mapsto> []),
                        handlers := (handlers s)(n \<mapsto> AtSend a j) \<rparr>)"
| "handlerStep V e n (AtSend a j) s =
     (if length (jobQueue s) < QueueCap
      then Some (s \<lparr> jobQueue := jobQueue s @ [j],
                     handlers := (handlers s)(n \<mapsto> AtReceive a j) \<rparr>)
      else None)"
| "handlerStep V e n (AtReceive a j) s =
     (case results s (result j) of
        None \<Rightarrow> None
      | Some res \<Rightarrow>
          Some (s \<lparr> results := (results s)(result j := None),
                    handlers := (handlers s)(n \<mapsto>
                      (case Err res of
                         Some msg \<Rightarrow> AtAbandon a j (httpError 500 ''FFMPEG_FAILED'' msg)
                       | None \<Rightarrow> AtFinalize a j)) \<rparr>))"
| "handlerStep V e n (AtAbandon a j out) s =
     Some (s \<lparr> files := Remove (files s) (outPath j),
               handlers := (handlers s)(n \<mapsto> Finished out) \<rparr>)"
| "handlerStep V e n (AtFinalize a j) s =
     (case Rename (renameFault e) (files s) (outPath j) (outPathOf (hash j)) of
        (fs', err) \<Rightarrow>
          Some (s \<lparr> files := fs',
                    handlers := (handlers s)(n \<mapsto>
                      (case V of
                         MainGo \<Rightarrow> AtRespond a j False
                       | Part000 \<Rightarrow>
                           (case err of
                              Some msg \<Rightarrow> AtAbandon a j (httpError 500 ''FS_ERROR'' msg)
                            | None \<Rightarrow> AtRespond a j False))) \<rparr>))"
| "handlerStep V e n (AtRespond a j skipped) s =
     Some (s \<lparr> handlers := (handlers s)(n \<mapsto>
                 Finished (respond (files s) (hash j) a (outPathOf (hash j)) skipped)) \<rparr>)"
| "handlerStep V e n (Finished out) s = None"

text \<open>
  Where the handler of a newly arrived request stands after the checks: a request that fails
  validation is finished at once; one that passes has its hash and paths computed and stands
  before \<^verbatim>\<open>os.Stat(outPath)\<close>. In \<^verbatim>\<open>part_000\<close> the context of the Job carries the deadline
  of 3 seconds.
\<close>

definition jobContext :: "variant \<Rightarrow> Context" where
  "jobContext V = (case V of MainGo \<Rightarrow> RequestContext | Part000 \<Rightarrow> WithTimeout 3 RequestContext)"

definition admit :: "variant \<Rightarrow> platform \<Rightarrow> nat \<Rightarrow> request \<Rightarrow> pc" where
  "admit V P n r =
     (case validate r of
        Inl out \<Rightarrow> Finished out
      | Inr (a, x, d) \<Rightarrow>
          AtStat a \<lparr> ctx = jobContext V, data = d, hash = sha256Hex P d, ext = x,
                     outPath = tmpPathOf (sha256Hex P d), result = n \<rparr>)"

text \<open>One step of the system.\<close>

fun step :: "variant \<Rightarrow> platform \<Rightarrow> action \<Rightarrow> system \<Rightarrow> system option" where
  "step V P (Arrive n r) s =
     (case handlers s n of
        Some p \<Rightarrow> None
      | None \<Rightarrow> Some (s \<lparr> handlers := (handlers s)(n \<mapsto> admit V P n r) \<rparr>))"
| "step V P (Handler n e) s =
     (case handlers s n of None \<Rightarrow> None | Some p \<Rightarrow> handlerStep V e n p s)"
| "step V P Take s =
     (case jobQueue s of
        [] \<Rightarrow> None
      | j # q \<Rightarrow>
          if length (running s) < WorkerCount
          then Some (s \<lparr> jobQueue := q, running := running s @ [j] \<rparr>)
          else None)"
| "step V P (Complete n e) s =
     (case find (\<lambda>j. result j = n) (running s) of
        None \<Rightarrow> None
      | Some j \<Rightarrow>
          (case (case V of MainGo \<Rightarrow> process P e j (files s)
                         | Part000 \<Rightarrow> process_part000 P e j (files s)) of
             (fs', res) \<Rightarrow>
               Some (s \<lparr> files := fs', running := remove1 j (running s),
                         results := (results s)(n \<mapsto> res),
                         invocations :=
                           (if writeFault e = None
                            then (invocations s)(hash j := Suc (invocations s (hash j)))
                            else invocations s) \<rparr>)))"

text \<open>A run: the steps of a list of actions, one after the other; \<open>None\<close> when one is not enabled.\<close>

fun exec :: "variant \<Rightarrow> platform \<Rightarrow> action list \<Rightarrow> system \<Rightarrow> system option" where
  "exec V P [] s = Some s"
| "exec V P (a # as) s = (case step V P a s of None \<Rightarrow> None | Some s' \<Rightarrow> exec V P as s')"

text \<open>The states the system reaches from an idle start on some file system.\<close>

definition reachable :: "variant \<Rightarrow> platform \<Rightarrow> system \<Rightarrow> bool" where
  "reachable V P s = (\<exists>fs as. exec V P as (initial fs) = Some s)"

text \<open>
  The Jobs in flight: queued or being run. A handler holds the claim of a content hash from
  its exclusive create until its remove or rename.
\<close>

definition inFlight :: "system \<Rightarrow> Job list" where
  "inFlight s = jobQueue s @ running s"

fun locals :: "pc \<Rightarrow> Job option" where
  "locals (AtStat a j) = Some j"
| "locals (AtClaim a j) = Some j"
| "locals (AtSend a j) = Some j"
| "locals (AtReceive a j) = Some j"
| "locals (AtAbandon a j out) = Some j"
| "locals (AtFinalize a j) = Some j"
| "locals (AtRespond a j skipped) = Some j"
| "locals (Finished out) = None"

fun claimed :: "pc \<Rightarrow> bool" where
  "claimed (AtSend a j) = True"
| "claimed (AtReceive a j) = True"
| "claimed (AtAbandon a j out) = True"
| "claimed (AtFinalize a j) = True"
| "claimed p = False"

definition holdsClaim :: "system \<Rightarrow> nat \<Rightarrow> string \<Rightarrow> bool" where
  "holdsClaim s n k =
     (case handlers s n of
        None \<Rightarrow> False
      | Some p \<Rightarrow> claimed p \<and> map_option hash (locals p) = Some k)"

text \<open>
  The invariant of the \<^verbatim>\<open>main.go\<close> system, in six parts: the locals of every handler are
  those its request was given; whoever holds the claim of a hash finds the claim marker in
  place; no two requests hold the claim of one hash; a Job in flight belongs to a handler
  that waits for its result; no request has two Jobs in flight; a result waits only for a
  handler that waits for it, and then the Job is no longer in flight.
\<close>

definition properLocals :: "nat \<Rightarrow> Job \<Rightarrow> bool" where
  "properLocals n j =
     (result j = n \<and> outPath j = tmpPathOf (hash j) \<and> (ext j = ''.mp3'' \<or> ext j = ''.wav''))"

definition wellFormed :: "system \<Rightarrow> bool" where
  "wellFormed s = (\<forall>n p j. handlers s n = Some p \<and> locals p = Some j \<longrightarrow> properLocals n j)"

definition markersKept :: "system \<Rightarrow> bool" where
  "markersKept s = (\<forall>n k. holdsClaim s n k \<longrightarrow> files s (tmpPathOf k) \<noteq> None)"

definition exclusive :: "system \<Rightarrow> bool" where
  "exclusive s = (\<forall>n m k. holdsClaim s n k \<and> holdsClaim s m k \<longrightarrow> n = m)"

definition awaited :: "system \<Rightarrow> bool" where
  "awaited s = (\<forall>j \<in> set (inFlight s). \<exists>a. handlers s (result j) = Some (AtReceive a j))"

definition answered :: "system \<Rightarrow> bool" where
  "answered s =
     (\<forall>n. results s n \<noteq> None \<longrightarrow>
        (\<exists>a j. handlers s n = Some (AtReceive a j)) \<and> n \<notin> result ` set (inFlight s))"

definition claimInv :: "system \<Rightarrow> bool" where
  "claimInv s =
     (wellFormed s \<and> markersKept s \<and> exclusive s \<and> awaited s \<and>
      distinct (map result (inFlight s)) \<and> answered s)"

section \<open>Concrete inputs for the examples\<close>

text \<open>
  A platform, an environment without faults (the transcoder writes four bytes), a request and
  an empty store, to run the functions on. The digest of the example platform is the
  one-byte list holding the length of the input: it stands in for SHA-256 in the examples
  only, every theorem below is about an arbitrary platform.
\<close>

definition examplePlatform :: platform where
  "examplePlatform = \<lparr> Sum256 = (\<lambda>bs. [of_nat (length bs)]), TempDir = ''/tmp'' \<rparr>"

definition exampleEnv :: env where
  "exampleEnv = \<lparr> openFault = None, writeFault = None, runFailed = False, stderr = [],
      written = Some [82, 73, 70, 70], ctxErr = CtxNil, renameFault = None \<rparr>"

definition exampleUpload :: "byte list \<Rightarrow> upload" where
  "exampleUpload bs =
     \<lparr> Filename = ''a.wav'', body = bs, readErr = None, bufCap = max 512 (length bs) \<rparr>"

definition exampleRequest :: "byte list \<Rightarrow> request" where
  "exampleRequest bs = \<lparr> formErr = None, fileField = Some (exampleUpload bs) \<rparr>"

definition emptyStore :: fsys where
  "emptyStore = (\<lambda>p. None)"

text \<open>An environment in which the transcoder run fails.\<close>

definition failingEnv :: env where
  "failingEnv = exampleEnv \<lparr> runFailed := True, stderr := ''killed'' \<rparr>"

text \<open>The first 16 bytes of a WAV file: \<^verbatim>\<open>RIFF\<close>, a length, \<^verbatim>\<open>WAVEfmt \<close>.\<close>

definition riffHeader :: "byte list" where
  "riffHeader = [82, 73, 70, 70, 36, 0, 0, 0, 87, 65, 86, 69, 102, 109, 116, 32]"

text \<open>
  Runs of the system on two requests that carry the same bytes. In \<open>raceRun\<close> both requests
  find no entry; the second then claims, has its Job processed (the transcoder writes one
  byte), renames and responds, all before the first goes on. In \<open>raceRunRest\<close> the first
  request goes on from there; this time the transcoder writes two bytes. The runs for
  \<^verbatim>\<open>part_000\<close> are the same without the claim steps, with both Jobs queued together. In
  \<open>claimRun\<close> the first request claims and sends its Job before the second tries to claim.
\<close>

definition raceRun :: "action list" where
  "raceRun =
     [Arrive 1 (exampleRequest riffHeader), Arrive 2 (exampleRequest riffHeader),
      Handler 1 exampleEnv, Handler 2 exampleEnv,
      Handler 2 exampleEnv, Handler 2 exampleEnv, Take,
      Complete 2 (exampleEnv \<lparr> written := Some [1] \<rparr>),
      Handler 2 exampleEnv, Handler 2 exampleEnv, Handler 2 exampleEnv]"

definition raceRunRest :: "action list" where
  "raceRunRest =
     [Handler 1 exampleEnv, Handler 1 exampleEnv, Take,
      Complete 1 (exampleEnv \<lparr> written := Some [2, 2] \<rparr>),
      Handler 1 exampleEnv, Handler 1 exampleEnv, Handler 1 exampleEnv]"

definition raceRun_part000 :: "action list" where
  "raceRun_part000 =
     [Arrive 1 (exampleRequest riffHeader), Arrive 2 (exampleRequest riffHeader),
      Handler 1 exampleEnv, Handler 2 exampleEnv,
      Handler 1 exampleEnv, Handler 2 exampleEnv, Take, Take,
      Complete 2 (exampleEnv \<lparr> written := Some [1] \<rparr>),
      Handler 2 exampleEnv, Handler 2 exampleEnv, Handler 2 exampleEnv]"

definition raceRunRest_part000 :: "action list" where
  "raceRunRest_part000 =
     [Complete 1 (exampleEnv \<lparr> written := Some [2, 2] \<rparr>),
      Handler 1 exampleEnv, Handler 1 exampleEnv, Handler 1 exampleEnv]"

definition claimRun :: "action list" where
  "claimRun =
     [Arrive 1 (exampleRequest riffHeader), Arrive 2 (exampleRequest riffHeader),
      Handler 1 exampleEnv, Handler 2 exampleEnv,
      Handler 1 exampleEnv, Handler 1 exampleEnv, Handler 2 exampleEnv]"

text \<open>A third request with the same bytes, arriving after the other two are done.\<close>

definition laterRun :: "action list" where
  "laterRun =
     [Arrive 3 (exampleRequest riffHeader), Handler 3 exampleEnv, Handler 3 exampleEnv]"

section \<open>Basic facts\<close>

lemmas eval_defs = examplePlatform_def exampleEnv_def exampleUpload_def exampleRequest_def
  emptyStore_def riffHeader_def
  normalizeHandler_def normalizeHandler_part000_def validate_def process_def process_part000_def
  respond_def httpError_def ternary_def sha256Hex_def EncodeToString_def hexbyte_def hextable_def
  outPathOf_def tmpPathOf_def Join_def StorageDir_def Ext_def ToLower_def lowerChar_def
  Rename_def Remove_def SampleRate_def Base_def Let_def

lemma MaxUploadSize_value: "MaxUploadSize = 10485760"
  by (simp add: MaxUploadSize_def)

lemma hexbyte_digits: "set (hexbyte b) \<subseteq> set hextable"
proof -
  have "unat b < 256" using unsigned_less [of b] by simp
  then have "unat b div 16 < length hextable" and "unat b mod 16 < length hextable"
    by (simp_all add: hextable_def less_mult_imp_div_less)
  then show ?thesis
    unfolding hexbyte_def by (simp add: nth_mem del: length_greater_0_conv)
qed

lemma EncodeToString_digits: "set (EncodeToString bs) \<subseteq> set hextable"
  using hexbyte_digits by (induction bs) (auto simp: EncodeToString_def)

lemma EncodeToString_length: "length (EncodeToString bs) = 2 * length bs"
  by (induction bs) (simp_all add: EncodeToString_def hexbyte_def)

subsection \<open>Validation\<close>

lemma validate_InrD:
  assumes "validate r = Inr (original, x, d)"
  shows "\<exists>u. formErr r = None \<and> fileField r = Some u \<and> original = Filename u \<and>
             x = ToLower (Ext (Filename u)) \<and> (x = ''.mp3'' \<or> x = ''.wav'') \<and>
             readErr u = None \<and> d = body u \<and> length d \<le> MaxUploadSize \<and> 16 \<le> bufCap u"
  using assms
  by (auto simp: validate_def Let_def split: option.splits if_splits)

lemma validate_accept:
  assumes "formErr r = None" and "fileField r = Some u"
    and "ToLower (Ext (Filename u)) = ''.mp3'' \<or> ToLower (Ext (Filename u)) = ''.wav''"
    and "readErr u = None" and "length (body u) \<le> MaxUploadSize" and "16 \<le> bufCap u"
  shows "validate r = Inr (Filename u, ToLower (Ext (Filename u)), body u)"
  using assms
  by (auto simp: validate_def Let_def split: option.splits if_splits)

lemma validate_Inl_outcome: "validate r = Inl out \<Longrightarrow> \<not> (\<exists>resp. out = Responded resp)"
  by (auto simp: validate_def Let_def httpError_def split: option.splits if_splits)

lemma exampleRequest_valid:
  "length bs \<le> MaxUploadSize \<Longrightarrow> validate (exampleRequest bs) = Inr (''a.wav'', ''.wav'', bs)"
  by (simp add: validate_def exampleRequest_def exampleUpload_def Ext_def ToLower_def
        lowerChar_def Let_def max_def)

subsection \<open>One run of a handler\<close>

lemma respond_cases:
  "respond fs h a p sk = Responded resp \<Longrightarrow>
     \<exists>b. fs p = Some b \<and> fileId resp = h \<and> sizeBytes resp = int (length b) \<and>
         sampleRate resp = 16000 \<and> channels resp = 1 \<and> encoding resp = ''pcm_s16le'' \<and>
         status resp = (if sk then ''skipped'' else ''done'')"
  by (auto simp: respond_def ternary_def SampleRate_def split: option.splits)

lemma handler_skips:
  assumes "validate r = Inr (original, x, d)" and "fs (outPathOf (sha256Hex P d)) = Some b"
  shows "normalizeHandler P e ch r fs =
           \<lparr> store = fs, enqueued = [],
             outcome = respond fs (sha256Hex P d) original (outPathOf (sha256Hex P d)) True \<rparr>"
    and "normalizeHandler_part000 P e ch r fs =
           \<lparr> store = fs, enqueued = [],
             outcome = respond fs (sha256Hex P d) original (outPathOf (sha256Hex P d)) True \<rparr>"
  using assms by (simp_all add: normalizeHandler_def normalizeHandler_part000_def Let_def)

lemma handler_done:
  assumes "validate r = Inr (original, x, d)" and "fs (outPathOf (sha256Hex P d)) = None"
    and "outcome (normalizeHandler P e ch r fs) = Responded resp"
  shows "status resp = ''done'' \<and> fileId resp = sha256Hex P d \<and>
         (\<exists>b. store (normalizeHandler P e ch r fs) (outPathOf (sha256Hex P d)) = Some b \<and>
              sizeBytes resp = int (length b)) \<and>
         sampleRate resp = 16000 \<and> channels resp = 1 \<and> encoding resp = ''pcm_s16le''"
  using assms
  by (auto simp: normalizeHandler_def Let_def httpError_def respond_def ternary_def SampleRate_def
           split: option.splits prod.splits if_splits)

lemma handler_done_part000:
  assumes "validate r = Inr (original, x, d)" and "fs (outPathOf (sha256Hex P d)) = None"
    and "outcome (normalizeHandler_part000 P e ch r fs) = Responded resp"
  shows "status resp = ''done'' \<and> fileId resp = sha256Hex P d \<and>
         (\<exists>b. store (normalizeHandler_part000 P e ch r fs) (outPathOf (sha256Hex P d)) = Some b \<and>
              sizeBytes resp = int (length b)) \<and>
         sampleRate resp = 16000 \<and> channels resp = 1 \<and> encoding resp = ''pcm_s16le''"
  using assms
  by (auto simp: normalizeHandler_part000_def Let_def httpError_def respond_def ternary_def
           SampleRate_def split: option.splits prod.splits if_splits)

lemma handler_responded:
  assumes "validate r = Inr (original, x, d)"
    and "outcome (normalizeHandler P e ch r fs) = Responded resp"
  shows "\<exists>b. store (normalizeHandler P e ch r fs) (outPathOf (sha256Hex P d)) = Some b \<and>
             sizeBytes resp = int (length b) \<and> fileId resp = sha256Hex P d \<and>
             status resp = (if fs (outPathOf (sha256Hex P d)) = None then ''done'' else ''skipped'') \<and>
             sampleRate resp = 16000 \<and> channels resp = 1 \<and> encoding resp = ''pcm_s16le''"
proof (cases "fs (outPathOf (sha256Hex P d))")
  case None
  from handler_done [OF assms(1) None assms(2)] None show ?thesis by auto
next
  case (Some b)
  from handler_skips(1) [where fs = fs, OF assms(1) Some, of e ch] assms(2) Some show ?thesis
    by (auto dest!: respond_cases)
qed

lemma handler_responded_part000:
  assumes "validate r = Inr (original, x, d)"
    and "outcome (normalizeHandler_part000 P e ch r fs) = Responded resp"
  shows "\<exists>b. store (normalizeHandler_part000 P e ch r fs) (outPathOf (sha256Hex P d)) = Some b \<and>
             sizeBytes resp = int (length b) \<and> fileId resp = sha256Hex P d \<and>
             status resp = (if fs (outPathOf (sha256Hex P d)) = None then ''done'' else ''skipped'') \<and>
             sampleRate resp = 16000 \<and> channels resp = 1 \<and> encoding resp = ''pcm_s16le''"
proof (cases "fs (outPathOf (sha256Hex P d))")
  case None
  from handler_done_part000 [OF assms(1) None assms(2)] None show ?thesis by auto
next
  case (Some b)
  from handler_skips(2) [where fs = fs, OF assms(1) Some, of e ch] assms(2) Some show ?thesis
    by (auto dest!: respond_cases)
qed

lemma responded_validated:
  assumes "outcome (normalizeHandler P e ch r fs) = Responded resp \<or>
           outcome (normalizeHandler_part000 P e ch r fs) = Responded resp"
  shows "\<exists>original x d. validate r = Inr (original, x, d)"
proof (cases "validate r")
  case (Inl out)
  with validate_Inl_outcome [OF Inl] assms show ?thesis
    by (auto simp: normalizeHandler_def normalizeHandler_part000_def)
next
  case (Inr t)
  then show ?thesis by (cases t) auto
qed

subsection \<open>The example run\<close>

lemma first_run:
  "outcome (normalizeHandler examplePlatform exampleEnv 1 (exampleRequest riffHeader) emptyStore) =
     Responded \<lparr> fileId = ''10'', originalFilename = ''a.wav'', normalizedFilename = ''10.wav'',
       sampleRate = 16000, channels = 1, encoding = ''pcm_s16le'', sizeBytes = 4, status = ''done'' \<rparr>"
  by (simp add: eval_defs MaxUploadSize_def)

lemma first_run_part000:
  "outcome (normalizeHandler_part000 examplePlatform exampleEnv 1 (exampleRequest riffHeader) emptyStore) =
     Responded \<lparr> fileId = ''10'', originalFilename = ''a.wav'', normalizedFilename = ''10.wav'',
       sampleRate = 16000, channels = 1, encoding = ''pcm_s16le'', sizeBytes = 4, status = ''done'' \<rparr>"
  by (simp add: eval_defs MaxUploadSize_def)

section \<open>The paths of the store\<close>

lemma Join_last: "name \<noteq> [] \<Longrightarrow> last (Join dir name) = last name"
  by (simp add: Join_def)

lemma outPathOf_last: "last (outPathOf h) = CHR ''v''"
  by (simp add: outPathOf_def Join_last)

lemma tmpPathOf_last: "last (tmpPathOf h) = CHR ''p''"
  by (simp add: tmpPathOf_def)

lemma out_neq_tmp [simp]: "outPathOf h \<noteq> tmpPathOf k" "tmpPathOf k \<noteq> outPathOf h"
  using outPathOf_last [of h] tmpPathOf_last [of k] by auto

lemma tmpInput_neq_tmpPath:
  assumes "x = ''.mp3'' \<or> x = ''.wav''"
  shows "Join td (h @ x) \<noteq> tmpPathOf k" and "tmpPathOf k \<noteq> Join td (h @ x)"
proof -
  have "last (Join td (h @ x)) = last x"
    using assms by (subst Join_last) auto
  with assms tmpPathOf_last [of k] show "Join td (h @ x) \<noteq> tmpPathOf k" by auto
  then show "tmpPathOf k \<noteq> Join td (h @ x)" by simp
qed

lemma outPathOf_inj [simp]: "outPathOf h = outPathOf k \<longleftrightarrow> h = k"
  by (simp add: outPathOf_def Join_def StorageDir_def)

lemma tmpPathOf_inj [simp]: "tmpPathOf h = tmpPathOf k \<longleftrightarrow> h = k"
  by (simp add: tmpPathOf_def)


lemma validated_ext:
  "validate r = Inr (a, x, d) \<Longrightarrow> x = ''.mp3'' \<or> x = ''.wav''"
  by (auto dest!: validate_InrD)

lemma tmpInput_neq_tmp_app:
  assumes "x = ''.mp3'' \<or> x = ''.wav''"
  shows "Join td (h @ x) \<noteq> outPathOf k @ ''.tmp''" and "outPathOf k @ ''.tmp'' \<noteq> Join td (h @ x)"
  using tmpInput_neq_tmpPath [OF assms, of td h k] by (simp_all add: tmpPathOf_def)

section \<open>The invariant of the claims in \<^verbatim>\<open>main.go\<close>\<close>

lemma process_keeps_marker:
  assumes "ext j = ''.mp3'' \<or> ext j = ''.wav''" and "fs (tmpPathOf k) \<noteq> None"
  shows "fst (process P e j fs) (tmpPathOf k) \<noteq> None"
  using assms tmpInput_neq_tmpPath [OF assms(1), of "TempDir P" "hash j" k]
  by (auto simp: process_def Let_def Remove_def split: option.splits)

lemma claimInv_initial: "claimInv (initial fs)"
  by (simp add: claimInv_def wellFormed_def markersKept_def exclusive_def awaited_def answered_def
        holdsClaim_def initial_def inFlight_def)

lemma admit_facts:
  "\<not> claimed (admit V P n r)"
  "admit V P n r \<noteq> AtReceive a j"
  "locals (admit V P n r) = Some j \<Longrightarrow> properLocals n j"
  by (auto simp: admit_def properLocals_def split: sum.splits dest!: validate_InrD)

lemmas inv_defs = claimInv_def wellFormed_def markersKept_def exclusive_def awaited_def answered_def
  holdsClaim_def inFlight_def

lemma claimInvD:
  assumes "claimInv s"
  shows "wellFormed s" "markersKept s" "exclusive s" "awaited s"
    "distinct (map result (inFlight s))" "answered s"
  using assms by (simp_all add: claimInv_def)

lemma awaitedD: "awaited s \<Longrightarrow> j \<in> set (inFlight s) \<Longrightarrow> \<exists>a. handlers s (result j) = Some (AtReceive a j)"
  by (simp add: awaited_def)

lemma answeredD:
  "answered s \<Longrightarrow> results s n \<noteq> None \<Longrightarrow>
     (\<exists>a j. handlers s n = Some (AtReceive a j)) \<and> n \<notin> result ` set (inFlight s)"
  by (simp add: answered_def)

lemma arrive_inv:
  assumes "claimInv s" and "step V P (Arrive n r) s = Some s'"
  shows "claimInv s'"
proof -
  from assms(2) have fresh: "handlers s n = None"
    and s': "s' = s \<lparr> handlers := (handlers s)(n \<mapsto> admit V P n r) \<rparr>"
    by (auto split: option.splits)
  note af = admit_facts [of V P n r]
  note I = claimInvD [OF assms(1)]
  have "wellFormed s'"
    using I(1) af(3) by (auto simp: wellFormed_def s')
  moreover have "markersKept s'"
    using I(2) af(1) by (auto simp: markersKept_def holdsClaim_def s' split: option.splits)
  moreover have "exclusive s'"
    using I(3) af(1) by (auto simp: exclusive_def holdsClaim_def s' split: option.splits if_splits)
  moreover have "awaited s'"
    using awaitedD [OF I(4)] fresh by (fastforce simp: awaited_def inFlight_def s')
  moreover have "distinct (map result (inFlight s'))"
    using I(5) by (simp add: inFlight_def s')
  moreover have "answered s'"
    using I(6) fresh by (auto simp: answered_def inFlight_def s')
  ultimately show ?thesis by (simp add: claimInv_def)
qed


lemma wellFormedD:
  "wellFormed s \<Longrightarrow> handlers s n = Some p \<Longrightarrow> locals p = Some j \<Longrightarrow> properLocals n j"
  by (auto simp: wellFormed_def)

text \<open>A step that changes only the standing of a handler that holds no claim.\<close>

lemma silent_move_inv:
  assumes inv: "claimInv s" and at: "handlers s n = Some p"
    and p: "\<not> claimed p" "\<forall>a j. p \<noteq> AtReceive a j"
    and p': "\<not> claimed p'" "\<forall>a j. p' \<noteq> AtReceive a j" "locals p' = locals p \<or> locals p' = None"
    and s': "s' = s \<lparr> handlers := (handlers s)(n \<mapsto> p') \<rparr>"
  shows "claimInv s'"
proof -
  note I = claimInvD [OF inv]
  have "wellFormed s'"
    using I(1) at p'(3) by (auto simp: wellFormed_def s')
  moreover have "markersKept s'"
    using I(2) p'(1) by (auto simp: markersKept_def holdsClaim_def s' split: option.splits)
  moreover have "exclusive s'"
    using I(3) p'(1) by (auto simp: exclusive_def holdsClaim_def s' split: option.splits if_splits)
  moreover have "awaited s'"
    using awaitedD [OF I(4)] at p(2) by (fastforce simp: awaited_def inFlight_def s')
  moreover have "distinct (map result (inFlight s'))"
    using I(5) by (simp add: inFlight_def s')
  moreover have "answered s'"
    unfolding answered_def
  proof (intro allI impI)
    fix m assume "results s' m \<noteq> None"
    then have r: "results s m \<noteq> None" by (simp add: s')
    from answeredD [OF I(6) r] at p(2) have "m \<noteq> n" by fastforce
    with answeredD [OF I(6) r]
    show "(\<exists>a j. handlers s' m = Some (AtReceive a j)) \<and> m \<notin> result ` set (inFlight s')"
      by (simp add: s' inFlight_def)
  qed
  ultimately show ?thesis by (simp add: claimInv_def)
qed

lemma stat_inv:
  assumes "claimInv s" and "handlers s n = Some (AtStat a j)"
    and "handlerStep MainGo e n (AtStat a j) s = Some s'"
  shows "claimInv s'"
proof (cases "files s (outPathOf (hash j)) \<noteq> None")
  case True
  with assms(3) have "s' = s \<lparr> handlers := (handlers s)(n \<mapsto> AtRespond a j True) \<rparr>" by auto
  then show ?thesis by (intro silent_move_inv [OF assms(1,2)]) auto
next
  case False
  with assms(3) have "s' = s \<lparr> handlers := (handlers s)(n \<mapsto> AtClaim a j) \<rparr>" by auto
  then show ?thesis by (intro silent_move_inv [OF assms(1,2)]) auto
qed

lemma respond_inv:
  assumes "claimInv s" and "handlers s n = Some (AtRespond a j sk)"
    and "handlerStep V e n (AtRespond a j sk) s = Some s'"
  shows "claimInv s'"
proof -
  from assms(3) have "s' = s \<lparr> handlers := (handlers s)(n \<mapsto>
     Finished (respond (files s) (hash j) a (outPathOf (hash j)) sk)) \<rparr>" by auto
  then show ?thesis by (intro silent_move_inv [OF assms(1,2)]) auto
qed


lemma holdsClaimI:
  "handlers s n = Some p \<Longrightarrow> claimed p \<Longrightarrow> locals p = Some j \<Longrightarrow> holdsClaim s n (hash j)"
  by (simp add: holdsClaim_def)

lemma markersKeptD: "markersKept s \<Longrightarrow> holdsClaim s n k \<Longrightarrow> files s (tmpPathOf k) \<noteq> None"
  by (simp add: markersKept_def)

lemma exclusiveD: "exclusive s \<Longrightarrow> holdsClaim s n k \<Longrightarrow> holdsClaim s m k \<Longrightarrow> n = m"
  by (auto simp: exclusive_def)

lemma claim_inv:
  assumes inv: "claimInv s" and at: "handlers s n = Some (AtClaim a j)"
    and st: "handlerStep V e n (AtClaim a j) s = Some s'"
  shows "claimInv s'"
proof -
  note I = claimInvD [OF inv]
  from wellFormedD [OF I(1) at] have pl: "properLocals n j" by simp
  then have op: "outPath j = tmpPathOf (hash j)" by (simp add: properLocals_def)
  consider (fault) err where "openFault e = Some err"
    | (lost) "openFault e = None" "files s (outPath j) \<noteq> None"
    | (won) "openFault e = None" "files s (outPath j) = None"
    by (cases "openFault e") auto
  then show ?thesis
  proof cases
    case fault
    with st have "s' = s \<lparr> handlers := (handlers s)(n \<mapsto> Finished (httpError 500 ''FS_ERROR'' err)) \<rparr>"
      by auto
    then show ?thesis by (intro silent_move_inv [OF inv at]) auto
  next
    case lost
    with st have "s' = s \<lparr> handlers := (handlers s)(n \<mapsto> AtRespond a j True) \<rparr>"
      by auto
    then show ?thesis by (intro silent_move_inv [OF inv at]) auto
  next
    case won
    with st have s': "s' = s \<lparr> files := (files s)(outPath j \<mapsto> []),
                        handlers := (handlers s)(n \<mapsto> AtSend a j) \<rparr>"
      by auto
    have nobody: "\<not> holdsClaim s m (hash j)" for m
      using markersKeptD [OF I(2), of m "hash j"] won(2) op by auto
    have "wellFormed s'"
      using I(1) pl by (auto simp: wellFormed_def s')
    moreover have "markersKept s'"
      using I(2) op by (auto simp: markersKept_def holdsClaim_def s' split: option.splits)
    moreover have "exclusive s'"
      unfolding exclusive_def
    proof (intro allI impI, elim conjE)
      fix m1 m2 k assume h: "holdsClaim s' m1 k" "holdsClaim s' m2 k"
      show "m1 = m2"
      proof (cases "k = hash j")
        case True
        with h nobody have "m1 = n" "m2 = n"
          by (auto simp: holdsClaim_def s' split: if_splits)
        then show ?thesis by simp
      next
        case False
        with h have "holdsClaim s m1 k" "holdsClaim s m2 k"
          by (auto simp: holdsClaim_def s' split: if_splits)
        with I(3) show ?thesis by (rule exclusiveD)
      qed
    qed
    moreover have "awaited s'"
      using awaitedD [OF I(4)] at by (fastforce simp: awaited_def inFlight_def s')
    moreover have "distinct (map result (inFlight s'))"
      using I(5) by (simp add: inFlight_def s')
    moreover have "answered s'"
      unfolding answered_def
    proof (intro allI impI)
      fix m assume "results s' m \<noteq> None"
      then have r: "results s m \<noteq> None" by (simp add: s')
      from answeredD [OF I(6) r] at have "m \<noteq> n" by fastforce
      with answeredD [OF I(6) r]
      show "(\<exists>a j. handlers s' m = Some (AtReceive a j)) \<and> m \<notin> result ` set (inFlight s')"
        by (simp add: s' inFlight_def)
    qed
    ultimately show ?thesis by (simp add: claimInv_def)
  qed
qed

lemma send_inv:
  assumes inv: "claimInv s" and at: "handlers s n = Some (AtSend a j)"
    and st: "handlerStep V e n (AtSend a j) s = Some s'"
  shows "claimInv s'"
proof -
  note I = claimInvD [OF inv]
  from wellFormedD [OF I(1) at] have pl: "properLocals n j" by simp
  then have rj: "result j = n" by (simp add: properLocals_def)
  from st have s': "s' = s \<lparr> jobQueue := jobQueue s @ [j],
                     handlers := (handlers s)(n \<mapsto> AtReceive a j) \<rparr>"
    by (auto split: if_splits)
  have notin: "n \<notin> result ` set (inFlight s)"
    using awaitedD [OF I(4)] at by fastforce
  have nores: "results s n = None"
    using answeredD [OF I(6), of n] at by fastforce
  have hc: "holdsClaim s' m k = holdsClaim s m k" for m k
    using at by (auto simp: holdsClaim_def s')
  have "wellFormed s'"
    using I(1) pl by (auto simp: wellFormed_def s')
  moreover have "markersKept s'"
    using I(2) by (simp add: markersKept_def hc) (simp add: s')
  moreover have "exclusive s'"
    using I(3) by (simp add: exclusive_def hc)
  moreover have "awaited s'"
    unfolding awaited_def
  proof
    fix i assume "i \<in> set (inFlight s')"
    then consider "i = j" | "i \<in> set (inFlight s)" by (auto simp: inFlight_def s')
    then show "\<exists>a. handlers s' (result i) = Some (AtReceive a i)"
    proof cases
      case 1
      then show ?thesis by (simp add: s' rj)
    next
      case 2
      with notin have "result i \<noteq> n" by auto
      with awaitedD [OF I(4) 2] show ?thesis by (simp add: s')
    qed
  qed
  moreover have "distinct (map result (inFlight s'))"
    using I(5) notin rj by (auto simp: inFlight_def s')
  moreover have "answered s'"
    unfolding answered_def
  proof (intro allI impI)
    fix m assume "results s' m \<noteq> None"
    then have r: "results s m \<noteq> None" by (simp add: s')
    with nores have "m \<noteq> n" by auto
    with answeredD [OF I(6) r] rj
    show "(\<exists>a j. handlers s' m = Some (AtReceive a j)) \<and> m \<notin> result ` set (inFlight s')"
      by (auto simp: s' inFlight_def)
  qed
  ultimately show ?thesis by (simp add: claimInv_def)
qed

lemma receive_inv:
  assumes inv: "claimInv s" and at: "handlers s n = Some (AtReceive a j)"
    and st: "handlerStep V e n (AtReceive a j) s = Some s'"
  shows "claimInv s'"
proof -
  note I = claimInvD [OF inv]
  from wellFormedD [OF I(1) at] have pl: "properLocals n j" by simp
  then have rj: "result j = n" by (simp add: properLocals_def)
  from st obtain res p' where res: "results s n = Some res"
    and p': "p' = (case Err res of Some msg \<Rightarrow> AtAbandon a j (httpError 500 ''FFMPEG_FAILED'' msg)
                   | None \<Rightarrow> AtFinalize a j)"
    and s': "s' = s \<lparr> results := (results s)(n := None), handlers := (handlers s)(n \<mapsto> p') \<rparr>"
    using rj by (auto split: option.splits)
  have cl: "claimed p'" "locals p' = Some j" "\<forall>a j. p' \<noteq> AtReceive a j"
    by (auto simp: p' split: option.splits)
  from answeredD [OF I(6), of n] res have notin: "n \<notin> result ` set (inFlight s)" by simp
  have hc: "holdsClaim s' m k = holdsClaim s m k" for m k
    using at cl by (auto simp: holdsClaim_def s')
  have "wellFormed s'"
    using I(1) pl cl by (auto simp: wellFormed_def s')
  moreover have "markersKept s'"
    using I(2) by (simp add: markersKept_def hc) (simp add: s')
  moreover have "exclusive s'"
    using I(3) by (simp add: exclusive_def hc)
  moreover have "awaited s'"
    using awaitedD [OF I(4)] notin by (fastforce simp: awaited_def inFlight_def s')
  moreover have "distinct (map result (inFlight s'))"
    using I(5) by (simp add: inFlight_def s')
  moreover have "answered s'"
    unfolding answered_def
  proof (intro allI impI)
    fix m assume r': "results s' m \<noteq> None"
    then have "m \<noteq> n" by (auto simp: s')
    with r' have r: "results s m \<noteq> None" by (simp add: s')
    with answeredD [OF I(6) r] \<open>m \<noteq> n\<close>
    show "(\<exists>a j. handlers s' m = Some (AtReceive a j)) \<and> m \<notin> result ` set (inFlight s')"
      by (simp add: s' inFlight_def)
  qed
  ultimately show ?thesis by (simp add: claimInv_def)
qed


text \<open>A holder releases its claim: the markers of other hashes stay.\<close>

lemma release_inv:
  assumes inv: "claimInv s" and at: "handlers s n = Some p"
    and p: "claimed p" "locals p = Some j" "\<forall>a j. p \<noteq> AtReceive a j"
    and p': "\<not> claimed p'" "\<forall>a j. p' \<noteq> AtReceive a j" "locals p' = locals p \<or> locals p' = None"
    and keep: "\<And>k. k \<noteq> hash j \<Longrightarrow> files s (tmpPathOf k) \<noteq> None \<Longrightarrow> f' (tmpPathOf k) \<noteq> None"
    and s': "s' = s \<lparr> files := f', handlers := (handlers s)(n \<mapsto> p') \<rparr>"
  shows "claimInv s'"
proof -
  note I = claimInvD [OF inv]
  have mine: "holdsClaim s n (hash j)" using at p(1,2) by (rule holdsClaimI)
  have "wellFormed s'"
    using I(1) at p'(3) by (auto simp: wellFormed_def s')
  moreover have "markersKept s'"
    unfolding markersKept_def
  proof (intro allI impI)
    fix m k assume h: "holdsClaim s' m k"
    with p'(1) have "m \<noteq> n" by (auto simp: holdsClaim_def s')
    with h have hm: "holdsClaim s m k" by (simp add: holdsClaim_def s')
    with exclusiveD [OF I(3) mine, of m] \<open>m \<noteq> n\<close> have "k \<noteq> hash j" by auto
    from keep [OF this markersKeptD [OF I(2) hm]] show "files s' (tmpPathOf k) \<noteq> None"
      by (simp add: s')
  qed
  moreover have "exclusive s'"
    using I(3) p'(1) by (auto simp: exclusive_def holdsClaim_def s' split: option.splits if_splits)
  moreover have "awaited s'"
    using awaitedD [OF I(4)] at p(3) by (fastforce simp: awaited_def inFlight_def s')
  moreover have "distinct (map result (inFlight s'))"
    using I(5) by (simp add: inFlight_def s')
  moreover have "answered s'"
    unfolding answered_def
  proof (intro allI impI)
    fix m assume "results s' m \<noteq> None"
    then have r: "results s m \<noteq> None" by (simp add: s')
    from answeredD [OF I(6) r] at p(3) have "m \<noteq> n" by fastforce
    with answeredD [OF I(6) r]
    show "(\<exists>a j. handlers s' m = Some (AtReceive a j)) \<and> m \<notin> result ` set (inFlight s')"
      by (simp add: s' inFlight_def)
  qed
  ultimately show ?thesis by (simp add: claimInv_def)
qed

lemma abandon_inv:
  assumes inv: "claimInv s" and at: "handlers s n = Some (AtAbandon a j out)"
    and st: "handlerStep V e n (AtAbandon a j out) s = Some s'"
  shows "claimInv s'"
proof -
  from wellFormedD [OF claimInvD(1) [OF inv] at] have op: "outPath j = tmpPathOf (hash j)"
    by (simp add: properLocals_def)
  from st have s': "s' = s \<lparr> files := Remove (files s) (outPath j),
               handlers := (handlers s)(n \<mapsto> Finished out) \<rparr>" by auto
  show ?thesis
    by (rule release_inv [OF inv at _ _ _ _ _ _ _ s']) (auto simp: Remove_def op)
qed

lemma finalize_inv:
  assumes inv: "claimInv s" and at: "handlers s n = Some (AtFinalize a j)"
    and st: "handlerStep MainGo e n (AtFinalize a j) s = Some s'"
  shows "claimInv s'"
proof -
  from wellFormedD [OF claimInvD(1) [OF inv] at] have op: "outPath j = tmpPathOf (hash j)"
    by (simp add: properLocals_def)
  from st have s': "s' = s \<lparr> files := fst (Rename (renameFault e) (files s) (outPath j) (outPathOf (hash j))),
               handlers := (handlers s)(n \<mapsto> AtRespond a j False) \<rparr>"
    by (auto split: prod.splits)
  show ?thesis
    by (rule release_inv [OF inv at _ _ _ _ _ _ _ s'])
       (auto simp: Rename_def op split: option.splits)
qed

lemma handler_inv:
  assumes "claimInv s" and "step MainGo P (Handler n e) s = Some s'"
  shows "claimInv s'"
proof -
  from assms(2) obtain p where at: "handlers s n = Some p"
    and st: "handlerStep MainGo e n p s = Some s'"
    by (auto split: option.splits)
  show ?thesis
  proof (cases p)
    case (AtStat a j) with assms(1) at st show ?thesis by (auto intro: stat_inv)
  next
    case (AtClaim a j) with assms(1) at st show ?thesis by (auto intro: claim_inv)
  next
    case (AtSend a j) with assms(1) at st show ?thesis by (auto intro: send_inv)
  next
    case (AtReceive a j) with assms(1) at st show ?thesis by (auto intro: receive_inv)
  next
    case (AtAbandon a j out) with assms(1) at st show ?thesis by (auto intro: abandon_inv)
  next
    case (AtFinalize a j) with assms(1) at st show ?thesis by (auto intro: finalize_inv)
  next
    case (AtRespond a j sk) with assms(1) at st show ?thesis by (auto intro: respond_inv)
  next
    case (Finished out) with st show ?thesis by simp
  qed
qed

lemma take_inv:
  assumes inv: "claimInv s" and st: "step V P Take s = Some s'"
  shows "claimInv s'"
proof -
  note I = claimInvD [OF inv]
  from st obtain j q where q: "jobQueue s = j # q"
    and s': "s' = s \<lparr> jobQueue := q, running := running s @ [j] \<rparr>"
    by (auto split: list.splits if_splits)
  have same: "set (inFlight s') = set (inFlight s)"
    by (auto simp: inFlight_def s' q)
  have "wellFormed s'" using I(1) by (simp add: wellFormed_def s')
  moreover have "markersKept s'" using I(2) by (simp add: markersKept_def holdsClaim_def s')
  moreover have "exclusive s'" using I(3) by (simp add: exclusive_def holdsClaim_def s')
  moreover have "awaited s'" using I(4) by (simp add: awaited_def same) (simp add: s')
  moreover have "distinct (map result (inFlight s'))"
    using I(5) by (auto simp: inFlight_def s' q)
  moreover have "answered s'" using I(6) by (simp add: answered_def same) (simp add: s')
  ultimately show ?thesis by (simp add: claimInv_def)
qed


lemma find_result:
  "find (\<lambda>j. result j = n) xs = Some j \<Longrightarrow> j \<in> set xs \<and> result j = n"
  by (auto simp: find_Some_iff)

lemma distinct_results_remove1:
  assumes "distinct (map result (q @ r))" and "j \<in> set r"
  shows "distinct (map result (q @ remove1 j r))"
    and "result j \<notin> result ` set (q @ remove1 j r)"
    and "set (q @ remove1 j r) \<subseteq> set (q @ r)"
proof -
  from assms(1) have "distinct (q @ r) \<and> inj_on result (set (q @ r))"
    by (rule distinct_map [THEN iffD1])
  then have d: "distinct (q @ r)" and inj: "inj_on result (set (q @ r))" by blast+
  from d have dr: "distinct r" and dq: "distinct q" and disj: "set q \<inter> set r = {}" by auto
  show sub: "set (q @ remove1 j r) \<subseteq> set (q @ r)"
    using set_remove1_subset [of j r] by auto
  have "distinct (q @ remove1 j r)"
    using dq dr disj set_remove1_subset [of j r] by auto
  moreover have "inj_on result (set (q @ remove1 j r))"
    using inj sub by (rule inj_on_subset)
  ultimately show "distinct (map result (q @ remove1 j r))"
    by (subst distinct_map) blast
  show "result j \<notin> result ` set (q @ remove1 j r)"
  proof
    assume "result j \<in> result ` set (q @ remove1 j r)"
    then obtain i where i: "i \<in> set (q @ remove1 j r)" "result i = result j" by force
    from i(1) sub have "i \<in> set (q @ r)" by blast
    moreover from assms(2) have "j \<in> set (q @ r)" by simp
    ultimately have "i = j" using inj i(2) by (meson inj_onD)
    with i(1) dr disj assms(2) show False by auto
  qed
qed

lemma complete_inv:
  assumes inv: "claimInv s" and st: "step MainGo P (Complete n e) s = Some s'"
  shows "claimInv s'"
proof -
  note I = claimInvD [OF inv]
  from st obtain j where f: "find (\<lambda>j. result j = n) (running s) = Some j"
    and s': "s' = s \<lparr> files := fst (process P e j (files s)), running := remove1 j (running s),
                         results := (results s)(n \<mapsto> snd (process P e j (files s))),
                         invocations :=
                           (if writeFault e = None
                            then (invocations s)(hash j := Suc (invocations s (hash j)))
                            else invocations s) \<rparr>"
    by (auto split: option.splits prod.splits)
  from find_result [OF f] have j: "j \<in> set (running s)" "result j = n" by auto
  then have jf: "j \<in> set (inFlight s)" by (simp add: inFlight_def)
  from awaitedD [OF I(4) jf] j(2) obtain a where at: "handlers s n = Some (AtReceive a j)" by auto
  from wellFormedD [OF I(1) at] have x: "ext j = ''.mp3'' \<or> ext j = ''.wav''"
    by (simp add: properLocals_def)
  note dr = distinct_results_remove1 [OF I(5) [unfolded inFlight_def] j(1)]
  have fl: "inFlight s' = jobQueue s @ remove1 j (running s)" by (simp add: inFlight_def s')
  have "wellFormed s'" using I(1) by (simp add: wellFormed_def s')
  moreover have "markersKept s'"
    unfolding markersKept_def
  proof (intro allI impI)
    fix m k assume "holdsClaim s' m k"
    then have "holdsClaim s m k" by (simp add: holdsClaim_def s')
    from process_keeps_marker [where fs = "files s", OF x markersKeptD [OF I(2) this]]
    show "files s' (tmpPathOf k) \<noteq> None" by (simp add: s')
  qed
  moreover have "exclusive s'" using I(3) by (simp add: exclusive_def holdsClaim_def s')
  moreover have "awaited s'"
    unfolding awaited_def
  proof
    fix i assume "i \<in> set (inFlight s')"
    then have "i \<in> set (jobQueue s @ remove1 j (running s))" unfolding fl .
    with dr(3) have "i \<in> set (inFlight s)" unfolding inFlight_def by blast
    from awaitedD [OF I(4) this] show "\<exists>a. handlers s' (result i) = Some (AtReceive a i)"
      by (simp add: s')
  qed
  moreover have "distinct (map result (inFlight s'))"
    using dr(1) by (simp add: fl)
  moreover have "answered s'"
    unfolding answered_def
  proof (intro allI impI)
    fix m assume r': "results s' m \<noteq> None"
    show "(\<exists>a j. handlers s' m = Some (AtReceive a j)) \<and> m \<notin> result ` set (inFlight s')"
    proof (cases "m = n")
      case True
      with at dr(2) j(2) show ?thesis by (simp add: fl) (simp add: s')
    next
      case False
      with r' have r: "results s m \<noteq> None" by (simp add: s')
      from answeredD [OF I(6) r] dr(3) have "(\<exists>a j. handlers s m = Some (AtReceive a j)) \<and>
          m \<notin> result ` set (jobQueue s @ remove1 j (running s))"
        unfolding inFlight_def by blast
      then have "(\<exists>a j. handlers s m = Some (AtReceive a j)) \<and> m \<notin> result ` set (inFlight s')"
        unfolding fl .
      then show ?thesis by (simp add: s')
    qed
  qed
  ultimately show ?thesis by (simp add: claimInv_def)
qed

lemma step_inv:
  assumes "claimInv s" and "step MainGo P a s = Some s'"
  shows "claimInv s'"
  using assms
  by (cases a) (auto intro: arrive_inv handler_inv take_inv complete_inv)

lemma exec_inv:
  "claimInv s \<Longrightarrow> exec MainGo P as s = Some s' \<Longrightarrow> claimInv s'"
proof (induction as arbitrary: s)
  case Nil
  then show ?case by simp
next
  case (Cons a as)
  from Cons.prems(2) obtain t where t: "step MainGo P a s = Some t" "exec MainGo P as t = Some s'"
    by (auto split: option.splits)
  from Cons.IH [OF step_inv [OF Cons.prems(1) t(1)] t(2)] show ?case .
qed

lemma reachable_inv: "reachable MainGo P s \<Longrightarrow> claimInv s"
  unfolding reachable_def using exec_inv [OF claimInv_initial] by blast

lemma reachableI: "exec V P as (initial fs) = Some s \<Longrightarrow> reachable V P s"
  by (auto simp: reachable_def)

lemma at_most_one:
  assumes "distinct xs" and "\<forall>x \<in> set xs. \<forall>y \<in> set xs. f x = k \<and> f y = k \<longrightarrow> x = y"
  shows "length (filter (\<lambda>x. f x = k) xs) \<le> 1"
proof -
  let ?ys = "filter (\<lambda>x. f x = k) xs"
  have d: "distinct ?ys" using assms(1) by simp
  have e: "\<And>x y. x \<in> set ?ys \<Longrightarrow> y \<in> set ?ys \<Longrightarrow> x = y" using assms(2) by simp
  show ?thesis
  proof (cases ?ys)
    case Nil then show ?thesis by simp
  next
    case (Cons a zs)
    note ys = Cons
    have "zs = []"
    proof (cases zs)
      case Nil then show ?thesis .
    next
      case (Cons b ws)
      with ys have m: "a \<in> set ?ys" "b \<in> set ?ys" by simp_all
      from e [OF m] have "a = b" .
      moreover from d have "a \<noteq> b" unfolding ys Cons by simp
      ultimately show ?thesis by simp
    qed
    with ys show ?thesis by simp
  qed
qed


section \<open>Runs of the example requests\<close>

lemma validated_example: "validate (exampleRequest riffHeader) = Inr (''a.wav'', ''.wav'', riffHeader)"
  by (rule exampleRequest_valid) (simp add: riffHeader_def MaxUploadSize_def)

lemma tmpInput_wav [simp]:
  "Join td (h @ ''.wav'') \<noteq> tmpPathOf k" "tmpPathOf k \<noteq> Join td (h @ ''.wav'')"
  using tmpInput_neq_tmpPath [of "''.wav''" td h k] by simp_all

lemma exec_append:
  "exec V P (as @ bs) s = (case exec V P as s of None \<Rightarrow> None | Some t \<Rightarrow> exec V P bs t)"
  by (induction as arbitrary: s) (auto split: option.splits)

lemmas run_defs = admit_def jobContext_def validated_example
  initial_def process_def process_part000_def Rename_def Remove_def respond_def httpError_def
  ternary_def exampleEnv_def emptyStore_def QueueCap_def WorkerCount_def SampleRate_def Let_def

lemma race_first:
  "\<exists>s. exec MainGo P raceRun (initial emptyStore) = Some s \<and>
       files s (outPathOf (sha256Hex P riffHeader)) = Some [1] \<and>
       invocations s (sha256Hex P riffHeader) = 1 \<and>
       handlers s 2 = Some (Finished (Responded
          \<lparr> fileId = sha256Hex P riffHeader, originalFilename = ''a.wav'',
            normalizedFilename = Base (outPathOf (sha256Hex P riffHeader)),
            sampleRate = 16000, channels = 1, encoding = ''pcm_s16le'', sizeBytes = 1,
            status = ''done'' \<rparr>))"
  by (simp add: raceRun_def run_defs)


lemma race_second:
  "\<exists>s. exec MainGo P (raceRun @ raceRunRest) (initial emptyStore) = Some s \<and>
       files s (outPathOf (sha256Hex P riffHeader)) = Some [2, 2] \<and>
       invocations s (sha256Hex P riffHeader) = 2 \<and>
       handlers s 1 = Some (Finished (Responded
          \<lparr> fileId = sha256Hex P riffHeader, originalFilename = ''a.wav'',
            normalizedFilename = Base (outPathOf (sha256Hex P riffHeader)),
            sampleRate = 16000, channels = 1, encoding = ''pcm_s16le'', sizeBytes = 2,
            status = ''done'' \<rparr>)) \<and>
       handlers s 2 = Some (Finished (Responded
          \<lparr> fileId = sha256Hex P riffHeader, originalFilename = ''a.wav'',
            normalizedFilename = Base (outPathOf (sha256Hex P riffHeader)),
            sampleRate = 16000, channels = 1, encoding = ''pcm_s16le'', sizeBytes = 1,
            status = ''done'' \<rparr>))"
  by (simp add: raceRun_def raceRunRest_def run_defs)

lemma race_part000_queue:
  "\<exists>s. exec Part000 P (take 6 raceRun_part000) (initial emptyStore) = Some s \<and>
       map hash (jobQueue s) = [sha256Hex P riffHeader, sha256Hex P riffHeader] \<and>
       map result (jobQueue s) = [1, 2] \<and>
       files s (tmpPathOf (sha256Hex P riffHeader)) = None"
  by (simp add: raceRun_part000_def run_defs)

lemma race_part000:
  "\<exists>s t. exec Part000 P raceRun_part000 (initial emptyStore) = Some s \<and>
       files s (outPathOf (sha256Hex P riffHeader)) = Some [1] \<and>
       exec Part000 P raceRunRest_part000 s = Some t \<and>
       files t (outPathOf (sha256Hex P riffHeader)) = Some [2, 2] \<and>
       invocations t (sha256Hex P riffHeader) = 2"
  by (simp add: raceRun_part000_def raceRunRest_part000_def run_defs)

lemma example_hash: "sha256Hex examplePlatform riffHeader = ''10''"
  by (simp add: sha256Hex_def examplePlatform_def riffHeader_def EncodeToString_def hexbyte_def
        hextable_def)

lemma claim_run:
  "\<exists>s. exec MainGo examplePlatform claimRun (initial emptyStore) = Some s \<and>
       map hash (inFlight s) = [''10''] \<and> map result (inFlight s) = [1] \<and>
       holdsClaim s 1 ''10'' \<and> \<not> holdsClaim s 2 ''10'' \<and>
       handlers s 2 = Some (AtRespond ''a.wav''
          \<lparr> ctx = RequestContext, data = riffHeader, hash = ''10'', ext = ''.wav'',
            outPath = tmpPathOf ''10'', result = 2 \<rparr> True)"
  by (simp add: claimRun_def run_defs inFlight_def holdsClaim_def example_hash)


lemma later_main:
  "\<exists>s t. exec MainGo P raceRun (initial emptyStore) = Some s \<and>
       handlers s 2 = Some (Finished (Responded
          \<lparr> fileId = sha256Hex P riffHeader, originalFilename = ''a.wav'',
            normalizedFilename = Base (outPathOf (sha256Hex P riffHeader)),
            sampleRate = 16000, channels = 1, encoding = ''pcm_s16le'', sizeBytes = 1,
            status = ''done'' \<rparr>)) \<and>
       handlers s 3 = None \<and>
       exec MainGo P (raceRunRest @ laterRun) s = Some t \<and>
       jobQueue t = [] \<and> running t = [] \<and>
       handlers t 3 = Some (Finished (Responded
          \<lparr> fileId = sha256Hex P riffHeader, originalFilename = ''a.wav'',
            normalizedFilename = Base (outPathOf (sha256Hex P riffHeader)),
            sampleRate = 16000, channels = 1, encoding = ''pcm_s16le'', sizeBytes = 2,
            status = ''skipped'' \<rparr>))"
  by (simp add: raceRun_def raceRunRest_def laterRun_def run_defs)

lemma later_part000:
  "\<exists>s t. exec Part000 P raceRun_part000 (initial emptyStore) = Some s \<and>
       handlers s 2 = Some (Finished (Responded
          \<lparr> fileId = sha256Hex P riffHeader, originalFilename = ''a.wav'',
            normalizedFilename = Base (outPathOf (sha256Hex P riffHeader)),
            sampleRate = 16000, channels = 1, encoding = ''pcm_s16le'', sizeBytes = 1,
            status = ''done'' \<rparr>)) \<and>
       handlers s 3 = None \<and>
       exec Part000 P (raceRunRest_part000 @ laterRun) s = Some t \<and>
       jobQueue t = [] \<and> running t = [] \<and>
       handlers t 3 = Some (Finished (Responded
          \<lparr> fileId = sha256Hex P riffHeader, originalFilename = ''a.wav'',
            normalizedFilename = Base (outPathOf (sha256Hex P riffHeader)),
            sampleRate = 16000, channels = 1, encoding = ''pcm_s16le'', sizeBytes = 2,
            status = ''skipped'' \<rparr>))"
  by (simp add: raceRun_part000_def raceRunRest_part000_def laterRun_def run_defs)

section \<open>The claims settled on one run of a handler\<close>

text \<open>
  C10. The size cap is strict. For an upload that passed the earlier checks (the form parsed,
  the file field is there, the lowered extension is \<^verbatim>\<open>.mp3\<close> or \<^verbatim>\<open>.wav\<close>, the body was
  read), both handlers answer \<^verbatim>\<open>FILE_TOO_LARGE\<close> exactly when the body is longer than
  10485760 bytes; then no Job is sent and the file system is left as it was. A body of
  exactly 10485760 bytes passes validation, so the handler goes on to hash it.
\<close>

theorem size_cap_strict:
  assumes "formErr r = None" and "fileField r = Some u"
    and "ToLower (Ext (Filename u)) = ''.mp3'' \<or> ToLower (Ext (Filename u)) = ''.wav''"
    and "readErr u = None" and "length (body u) \<le> bufCap u"
  shows "((outcome (normalizeHandler P e ch r fs) =
             HttpError 400 ''FILE_TOO_LARGE'' ''max upload size is 10MB'')
           = (10485760 < length (body u))) \<and>
         ((outcome (normalizeHandler_part000 P e ch r fs) =
             HttpError 400 ''FILE_TOO_LARGE'' ''max upload size is 10MB'')
           = (10485760 < length (body u))) \<and>
         (10485760 < length (body u) \<longrightarrow>
            store (normalizeHandler P e ch r fs) = fs \<and>
            enqueued (normalizeHandler P e ch r fs) = [] \<and>
            store (normalizeHandler_part000 P e ch r fs) = fs \<and>
            enqueued (normalizeHandler_part000 P e ch r fs) = []) \<and>
         (length (body u) = 10485760 \<longrightarrow>
            validate r = Inr (Filename u, ToLower (Ext (Filename u)), body u))"
  using assms
  by (auto simp: normalizeHandler_def normalizeHandler_part000_def validate_def Let_def
        httpError_def respond_def MaxUploadSize_def split: option.splits prod.splits if_splits)

theorem size_cap_strict_witness:
  "length (body (exampleUpload (replicate MaxUploadSize 0))) = 10485760 \<and>
   validate (exampleRequest (replicate MaxUploadSize 0)) =
     Inr (''a.wav'', ''.wav'', replicate MaxUploadSize 0) \<and>
   outcome (normalizeHandler examplePlatform exampleEnv 0
              (exampleRequest (replicate MaxUploadSize 0)) emptyStore)
     \<noteq> HttpError 400 ''FILE_TOO_LARGE'' ''max upload size is 10MB''"
proof -
  let ?u = "exampleUpload (replicate MaxUploadSize 0)"
  let ?r = "exampleRequest (replicate MaxUploadSize 0)"
  have 1: "formErr ?r = None" and 2: "fileField ?r = Some ?u"
    by (simp_all add: exampleRequest_def)
  have 7: "ToLower (Ext (Filename ?u)) = ''.wav''"
    by (simp add: exampleUpload_def Ext_def ToLower_def lowerChar_def)
  then have 3: "ToLower (Ext (Filename ?u)) = ''.mp3'' \<or> ToLower (Ext (Filename ?u)) = ''.wav''"
    by simp
  have 4: "readErr ?u = None" and 5: "length (body ?u) \<le> bufCap ?u"
    by (simp_all add: exampleUpload_def)
  have 6: "length (body ?u) = 10485760"
    by (simp add: exampleUpload_def MaxUploadSize_def)
  from size_cap_strict [OF 1 2 3 4 5, of examplePlatform exampleEnv 0 emptyStore] 6
  show ?thesis unfolding 7 by (simp add: exampleUpload_def)
qed

text \<open>
  Beyond C2: resubmission while the entry stays as it is. Let two requests carry the same
  bytes and pass validation. If the first one was answered with a success response, and the
  entry of that content is still as the first request left it, then the second request, run
  on its own, is answered \<^verbatim>\<open>skipped\<close> with the same file identifier and the same size, sends
  no Job and leaves the file system as it found it. This holds of both handlers, whether the
  first response was \<^verbatim>\<open>done\<close> or \<^verbatim>\<open>skipped\<close>.
\<close>

theorem idempotent_resubmission:
  assumes "validate ra = Inr (originala, xa, d)" and "validate rb = Inr (originalb, xb, d)"
    and "fs' (outPathOf (sha256Hex P d)) = fsa (outPathOf (sha256Hex P d))"
  shows "(outcome (normalizeHandler P ea cha ra fs) = Responded respa \<and>
          fsa = store (normalizeHandler P ea cha ra fs) \<longrightarrow>
            (\<exists>respb. normalizeHandler P eb chb rb fs' =
                       \<lparr> store = fs', enqueued = [], outcome = Responded respb \<rparr> \<and>
                     status respb = ''skipped'' \<and> fileId respb = fileId respa \<and>
                     sizeBytes respb = sizeBytes respa)) \<and>
         (outcome (normalizeHandler_part000 P ea cha ra fs) = Responded respa \<and>
          fsa = store (normalizeHandler_part000 P ea cha ra fs) \<longrightarrow>
            (\<exists>respb. normalizeHandler_part000 P eb chb rb fs' =
                       \<lparr> store = fs', enqueued = [], outcome = Responded respb \<rparr> \<and>
                     status respb = ''skipped'' \<and> fileId respb = fileId respa \<and>
                     sizeBytes respb = sizeBytes respa))"
proof (intro conjI impI; elim conjE)
  assume out: "outcome (normalizeHandler P ea cha ra fs) = Responded respa"
    and fsa: "fsa = store (normalizeHandler P ea cha ra fs)"
  from handler_responded [OF assms(1) out] obtain b where
    b: "store (normalizeHandler P ea cha ra fs) (outPathOf (sha256Hex P d)) = Some b"
      "sizeBytes respa = int (length b)" "fileId respa = sha256Hex P d"
    by blast
  with assms(3) fsa have entry: "fs' (outPathOf (sha256Hex P d)) = Some b" by simp
  show "\<exists>respb. normalizeHandler P eb chb rb fs' =
                       \<lparr> store = fs', enqueued = [], outcome = Responded respb \<rparr> \<and>
                     status respb = ''skipped'' \<and> fileId respb = fileId respa \<and>
                     sizeBytes respb = sizeBytes respa"
    using handler_skips(1) [where fs = fs', OF assms(2) entry, of eb chb] entry b
    by (simp add: respond_def ternary_def)
next
  assume out: "outcome (normalizeHandler_part000 P ea cha ra fs) = Responded respa"
    and fsa: "fsa = store (normalizeHandler_part000 P ea cha ra fs)"
  from handler_responded_part000 [OF assms(1) out] obtain b where
    b: "store (normalizeHandler_part000 P ea cha ra fs) (outPathOf (sha256Hex P d)) = Some b"
      "sizeBytes respa = int (length b)" "fileId respa = sha256Hex P d"
    by blast
  with assms(3) fsa have entry: "fs' (outPathOf (sha256Hex P d)) = Some b" by simp
  show "\<exists>respb. normalizeHandler_part000 P eb chb rb fs' =
                       \<lparr> store = fs', enqueued = [], outcome = Responded respb \<rparr> \<and>
                     status respb = ''skipped'' \<and> fileId respb = fileId respa \<and>
                     sizeBytes respb = sizeBytes respa"
    using handler_skips(2) [where fs = fs', OF assms(2) entry, of eb chb] entry b
    by (simp add: respond_def ternary_def)
qed

theorem idempotent_resubmission_witness:
  "\<exists>respa respb.
     outcome (normalizeHandler examplePlatform exampleEnv 1 (exampleRequest riffHeader) emptyStore)
       = Responded respa \<and>
     status respa = ''done'' \<and> sizeBytes respa = 4 \<and>
     normalizeHandler examplePlatform exampleEnv 2 (exampleRequest riffHeader)
        (store (normalizeHandler examplePlatform exampleEnv 1 (exampleRequest riffHeader) emptyStore))
       = \<lparr> store = store (normalizeHandler examplePlatform exampleEnv 1
                             (exampleRequest riffHeader) emptyStore),
           enqueued = [], outcome = Responded respb \<rparr> \<and>
     status respb = ''skipped'' \<and> fileId respb = fileId respa \<and> sizeBytes respb = sizeBytes respa"
proof -
  let ?first = "normalizeHandler examplePlatform exampleEnv 1 (exampleRequest riffHeader) emptyStore"
  have v: "validate (exampleRequest riffHeader) = Inr (''a.wav'', ''.wav'', riffHeader)"
    by (rule exampleRequest_valid) (simp add: riffHeader_def MaxUploadSize_def)
  have same: "store ?first (outPathOf (sha256Hex examplePlatform riffHeader)) =
              store ?first (outPathOf (sha256Hex examplePlatform riffHeader))"
    by simp
  let ?R = "\<lparr> fileId = ''10'', originalFilename = ''a.wav'', normalizedFilename = ''10.wav'',
       sampleRate = 16000, channels = 1, encoding = ''pcm_s16le'', sizeBytes = 4,
       status = ''done'' \<rparr>"
  from idempotent_resubmission [where P = examplePlatform and fsa = "store ?first"
      and fs' = "store ?first" and ea = exampleEnv and cha = 1 and fs = emptyStore
      and eb = exampleEnv and chb = 2 and respa = ?R, OF v v same] first_run
  have "\<exists>respb. normalizeHandler examplePlatform exampleEnv 2 (exampleRequest riffHeader)
            (store ?first) = \<lparr> store = store ?first, enqueued = [], outcome = Responded respb \<rparr> \<and>
          status respb = ''skipped'' \<and> fileId respb = fileId ?R \<and> sizeBytes respb = sizeBytes ?R"
    by blast
  with first_run show ?thesis by auto
qed

text \<open>
  C7. Content of a success response. Whenever either handler answers with a success
  response, \<^verbatim>\<open>fileId\<close> is the hexadecimal encoding of the digest of the uploaded bytes
  (two lower-case digits per byte of the digest), the metadata say 16000 Hz, one channel and
  \<^verbatim>\<open>pcm_s16le\<close>, and the status is \<^verbatim>\<open>done\<close> when there was no entry for the content before
  the call and \<^verbatim>\<open>skipped\<close> when there was one, as there is after a successful call.
\<close>

theorem response_content:
  assumes "fileField r = Some u"
    and "outcome (normalizeHandler P e ch r fs) = Responded resp \<or>
         outcome (normalizeHandler_part000 P e ch r fs) = Responded resp"
  shows "fileId resp = EncodeToString (Sum256 P (body u)) \<and>
         set (fileId resp) \<subseteq> set hextable \<and>
         length (fileId resp) = 2 * length (Sum256 P (body u)) \<and>
         sampleRate resp = 16000 \<and> channels resp = 1 \<and> encoding resp = ''pcm_s16le'' \<and>
         status resp = (if fs (outPathOf (fileId resp)) = None then ''done'' else ''skipped'') \<and>
         (outcome (normalizeHandler P e ch r fs) = Responded resp \<longrightarrow>
            store (normalizeHandler P e ch r fs) (outPathOf (fileId resp)) \<noteq> None) \<and>
         (outcome (normalizeHandler_part000 P e ch r fs) = Responded resp \<longrightarrow>
            store (normalizeHandler_part000 P e ch r fs) (outPathOf (fileId resp)) \<noteq> None)"
proof -
  from responded_validated [OF assms(2)] obtain original x d
    where v: "validate r = Inr (original, x, d)" by blast
  from validate_InrD [OF v] assms(1) have d: "d = body u" by auto
  from assms(2) have "fileId resp = sha256Hex P d \<and>
      status resp = (if fs (outPathOf (sha256Hex P d)) = None then ''done'' else ''skipped'') \<and>
      sampleRate resp = 16000 \<and> channels resp = 1 \<and> encoding resp = ''pcm_s16le''"
    using handler_responded [OF v] handler_responded_part000 [OF v] by blast
  moreover have "outcome (normalizeHandler P e ch r fs) = Responded resp \<longrightarrow>
            store (normalizeHandler P e ch r fs) (outPathOf (sha256Hex P d)) \<noteq> None"
    using handler_responded [OF v] by fastforce
  moreover have "outcome (normalizeHandler_part000 P e ch r fs) = Responded resp \<longrightarrow>
            store (normalizeHandler_part000 P e ch r fs) (outPathOf (sha256Hex P d)) \<noteq> None"
    using handler_responded_part000 [OF v] by fastforce
  ultimately show ?thesis
    using EncodeToString_digits [of "Sum256 P (body u)"]
      EncodeToString_length [of "Sum256 P (body u)"]
    by (simp add: d sha256Hex_def)
qed

theorem response_content_witness:
  "fileField (exampleRequest riffHeader) = Some (exampleUpload riffHeader) \<and>
   outcome (normalizeHandler examplePlatform exampleEnv 1 (exampleRequest riffHeader) emptyStore) =
     Responded \<lparr> fileId = ''10'', originalFilename = ''a.wav'', normalizedFilename = ''10.wav'',
       sampleRate = 16000, channels = 1, encoding = ''pcm_s16le'', sizeBytes = 4, status = ''done'' \<rparr> \<and>
   ''10'' = EncodeToString (Sum256 examplePlatform (body (exampleUpload riffHeader)))"
proof -
  have f: "fileField (exampleRequest riffHeader) = Some (exampleUpload riffHeader)"
    by (simp add: exampleRequest_def)
  from response_content [OF f disjI1 [OF first_run]] f first_run
  show ?thesis by simp
qed

text \<open>
  C3 fails in \<^verbatim>\<open>main.go\<close>. There the worker does not look at the output, so a transcoder
  run that reports success and leaves an empty file is no failure to the handler: the upload
  of the example is answered \<^verbatim>\<open>done\<close> with size 0, and the empty file is finalized as the
  entry of the content.
\<close>

theorem failed_transcode_finalized_main:
  "outcome (normalizeHandler P (exampleEnv \<lparr> written := Some [] \<rparr>) ch
              (exampleRequest riffHeader) emptyStore) =
     Responded \<lparr> fileId = sha256Hex P riffHeader, originalFilename = ''a.wav'',
       normalizedFilename = Base (outPathOf (sha256Hex P riffHeader)), sampleRate = 16000,
       channels = 1, encoding = ''pcm_s16le'', sizeBytes = 0, status = ''done'' \<rparr> \<and>
   store (normalizeHandler P (exampleEnv \<lparr> written := Some [] \<rparr>) ch
              (exampleRequest riffHeader) emptyStore) (outPathOf (sha256Hex P riffHeader)) = Some []"
  by (simp add: normalizeHandler_def validated_example process_def exampleEnv_def emptyStore_def
       Let_def Rename_def Remove_def respond_def ternary_def SampleRate_def tmpPathOf_def [symmetric])

text \<open>
  Beyond C3: what both handlers do once a failure is reported to them. Whenever either
  handler answers \<^verbatim>\<open>FFMPEG_FAILED\<close>, it leaves neither a claim marker nor an entry for the
  content. In \<^verbatim>\<open>part_000\<close> every kind of failed attempt is answered so: a failed write of the
  temporary input, a failed run (transcoder error, deadline, cancellation), an empty output
  and a missing output.
\<close>

theorem cleanup_on_reported_failure:
  assumes "validate r = Inr (a, x, d)"
  shows "(outcome (normalizeHandler P e ch r fs) = HttpError 500 ''FFMPEG_FAILED'' msg \<longrightarrow>
            store (normalizeHandler P e ch r fs) (tmpPathOf (sha256Hex P d)) = None \<and>
            store (normalizeHandler P e ch r fs) (outPathOf (sha256Hex P d)) = None) \<and>
         (outcome (normalizeHandler_part000 P e ch r fs) = HttpError 500 ''FFMPEG_FAILED'' msg \<longrightarrow>
            store (normalizeHandler_part000 P e ch r fs) (tmpPathOf (sha256Hex P d)) = None \<and>
            store (normalizeHandler_part000 P e ch r fs) (outPathOf (sha256Hex P d)) = None) \<and>
         (fs (outPathOf (sha256Hex P d)) = None \<and>
          (writeFault e \<noteq> None \<or> runFailed e \<or> written e = Some [] \<or>
           (written e = None \<and> fs (tmpPathOf (sha256Hex P d)) = None)) \<longrightarrow>
            (\<exists>m. outcome (normalizeHandler_part000 P e ch r fs) = HttpError 500 ''FFMPEG_FAILED'' m))"
proof (intro conjI impI)
  note x = validated_ext [OF assms]
  note ne = tmpInput_neq_tmp_app [OF x, of "TempDir P" "sha256Hex P d" "sha256Hex P d"]
  { assume "outcome (normalizeHandler P e ch r fs) = HttpError 500 ''FFMPEG_FAILED'' msg"
    then show "store (normalizeHandler P e ch r fs) (tmpPathOf (sha256Hex P d)) = None"
      and "store (normalizeHandler P e ch r fs) (outPathOf (sha256Hex P d)) = None"
      using ne
      by (auto simp: normalizeHandler_def assms Let_def process_def Remove_def Rename_def
            respond_def httpError_def tmpPathOf_def split: option.splits prod.splits if_splits) }
  { assume "outcome (normalizeHandler_part000 P e ch r fs) = HttpError 500 ''FFMPEG_FAILED'' msg"
    then show "store (normalizeHandler_part000 P e ch r fs) (tmpPathOf (sha256Hex P d)) = None"
      and "store (normalizeHandler_part000 P e ch r fs) (outPathOf (sha256Hex P d)) = None"
      using ne
      by (auto simp: normalizeHandler_part000_def assms Let_def process_part000_def Remove_def
            Rename_def respond_def httpError_def tmpPathOf_def
            split: option.splits prod.splits if_splits) }
  { assume "fs (outPathOf (sha256Hex P d)) = None \<and>
          (writeFault e \<noteq> None \<or> runFailed e \<or> written e = Some [] \<or>
           (written e = None \<and> fs (tmpPathOf (sha256Hex P d)) = None))"
    then show "\<exists>m. outcome (normalizeHandler_part000 P e ch r fs) = HttpError 500 ''FFMPEG_FAILED'' m"
      using ne
      by (auto simp: normalizeHandler_part000_def assms Let_def process_part000_def Remove_def
            httpError_def tmpPathOf_def split: option.splits) }
qed

theorem cleanup_on_reported_failure_witness:
  "outcome (normalizeHandler examplePlatform failingEnv 1 (exampleRequest riffHeader) emptyStore)
     = HttpError 500 ''FFMPEG_FAILED'' ''ffmpeg: killed'' \<and>
   store (normalizeHandler examplePlatform failingEnv 1 (exampleRequest riffHeader) emptyStore)
     (tmpPathOf ''10'') = None \<and>
   store (normalizeHandler examplePlatform failingEnv 1 (exampleRequest riffHeader) emptyStore)
     (outPathOf ''10'') = None"
proof -
  have o: "outcome (normalizeHandler examplePlatform failingEnv 1 (exampleRequest riffHeader)
             emptyStore) = HttpError 500 ''FFMPEG_FAILED'' ''ffmpeg: killed''"
    by (simp add: normalizeHandler_def validated_example process_def failingEnv_def exampleEnv_def
          emptyStore_def Let_def httpError_def)
  from cleanup_on_reported_failure [OF validated_example, where P = examplePlatform
      and e = failingEnv and ch = 1 and fs = emptyStore and msg = "''ffmpeg: killed''"] o
  show ?thesis by (simp add: example_hash)
qed

text \<open>
  C4 fails in \<^verbatim>\<open>main.go\<close>. The error of \<^verbatim>\<open>os.Rename\<close> is dropped there: when the rename
  fails after a successful Job, the claim marker stays where it is, no storage error is
  reported, and \<^verbatim>\<open>respond\<close> runs on a path that does not exist and panics.
\<close>

theorem finalize_failure_unchecked_main:
  "outcome (normalizeHandler P (exampleEnv \<lparr> renameFault := Some ''permission denied'' \<rparr>) ch
              (exampleRequest riffHeader) emptyStore) = Panicked NilDereference \<and>
   store (normalizeHandler P (exampleEnv \<lparr> renameFault := Some ''permission denied'' \<rparr>) ch
              (exampleRequest riffHeader) emptyStore) (tmpPathOf (sha256Hex P riffHeader))
     = Some [82, 73, 70, 70]"
  by (simp add: normalizeHandler_def validated_example process_def exampleEnv_def emptyStore_def
       Let_def Rename_def Remove_def respond_def tmpPathOf_def [symmetric])

text \<open>
  Beyond C4: \<^verbatim>\<open>part_000\<close> does what the claim says. After a successful Job, a failed rename
  is answered \<^verbatim>\<open>FS_ERROR\<close> with the temporary file removed and no entry made; a rename that
  succeeds is answered \<^verbatim>\<open>done\<close> with the size of the entry it made.
\<close>

theorem finalize_checked_part000:
  assumes "validate r = Inr (a, x, d)" and "fs (outPathOf (sha256Hex P d)) = None"
    and "writeFault e = None" and "\<not> runFailed e" and "written e = Some bs" and "bs \<noteq> []"
  shows "(renameFault e = Some msg \<longrightarrow>
            outcome (normalizeHandler_part000 P e ch r fs) = HttpError 500 ''FS_ERROR'' msg \<and>
            store (normalizeHandler_part000 P e ch r fs) (tmpPathOf (sha256Hex P d)) = None \<and>
            store (normalizeHandler_part000 P e ch r fs) (outPathOf (sha256Hex P d)) = None) \<and>
         (renameFault e = None \<longrightarrow>
            outcome (normalizeHandler_part000 P e ch r fs) =
              Responded \<lparr> fileId = sha256Hex P d, originalFilename = a,
                normalizedFilename = Base (outPathOf (sha256Hex P d)), sampleRate = 16000,
                channels = 1, encoding = ''pcm_s16le'', sizeBytes = int (length bs),
                status = ''done'' \<rparr> \<and>
            store (normalizeHandler_part000 P e ch r fs) (tmpPathOf (sha256Hex P d)) = None \<and>
            store (normalizeHandler_part000 P e ch r fs) (outPathOf (sha256Hex P d)) = Some bs)"
proof -
  note x = validated_ext [OF assms(1)]
  note ne = tmpInput_neq_tmp_app [OF x, of "TempDir P" "sha256Hex P d" "sha256Hex P d"]
  show ?thesis
    using assms(2-) ne
    by (auto simp: normalizeHandler_part000_def assms(1) Let_def process_part000_def Remove_def
          Rename_def respond_def httpError_def ternary_def SampleRate_def tmpPathOf_def)
qed

theorem finalize_checked_part000_witness:
  "outcome (normalizeHandler_part000 examplePlatform
              (exampleEnv \<lparr> renameFault := Some ''permission denied'' \<rparr>) 1
              (exampleRequest riffHeader) emptyStore)
     = HttpError 500 ''FS_ERROR'' ''permission denied'' \<and>
   store (normalizeHandler_part000 examplePlatform
              (exampleEnv \<lparr> renameFault := Some ''permission denied'' \<rparr>) 1
              (exampleRequest riffHeader) emptyStore) (tmpPathOf ''10'') = None"
proof -
  let ?e = "exampleEnv \<lparr> renameFault := Some ''permission denied'' \<rparr>"
  have 2: "emptyStore (outPathOf (sha256Hex examplePlatform riffHeader)) = None"
    by (simp add: emptyStore_def)
  have 3: "writeFault ?e = None" and 4: "\<not> runFailed ?e"
    and 5: "written ?e = Some [82, 73, 70, 70]" and 6: "[82, 73, 70, 70] \<noteq> ([] :: byte list)"
    and 7: "renameFault ?e = Some ''permission denied''"
    by (simp_all add: exampleEnv_def)
  from finalize_checked_part000 [where P = examplePlatform and fs = emptyStore and e = ?e
      and msg = "''permission denied''" and ch = 1, OF validated_example 2 3 4 5 6] 7
  show ?thesis by (simp add: example_hash)
qed

text \<open>
  C5 fails in \<^verbatim>\<open>main.go\<close>. For every Job and file system, when the transcoder reports
  success and leaves an empty output, \<^verbatim>\<open>process\<close> of \<^verbatim>\<open>main.go\<close> returns a Result without
  error and with size 0, where \<^verbatim>\<open>process\<close> of \<^verbatim>\<open>part_000\<close> returns the error
  \<^verbatim>\<open>ffmpeg produced empty output\<close>.
\<close>

theorem empty_output_accepted_main:
  "Err (snd (process P (exampleEnv \<lparr> written := Some [] \<rparr>) j fs)) = None \<and>
   Size (snd (process P (exampleEnv \<lparr> written := Some [] \<rparr>) j fs)) = 0 \<and>
   Err (snd (process_part000 P (exampleEnv \<lparr> written := Some [] \<rparr>) j fs)) =
     Some ''ffmpeg produced empty output''"
  by (simp add: process_def process_part000_def exampleEnv_def Let_def)

text \<open>
  Beyond C5: in \<^verbatim>\<open>part_000\<close> the Result carries no error exactly when the temporary input
  was written, the run reported success, and the output path held a non-empty file when it
  was validated; the size of the Result is the size of that file.
\<close>

theorem empty_output_rejected_part000:
  "(Err (snd (process_part000 P e j fs)) = None) =
     (writeFault e = None \<and> \<not> runFailed e \<and>
      (\<exists>bs. bs \<noteq> [] \<and>
         (case written e of
            None \<Rightarrow> fs(Join (TempDir P) (hash j @ ext j) \<mapsto> data j)
          | Some b \<Rightarrow> (fs(Join (TempDir P) (hash j @ ext j) \<mapsto> data j))(outPath j \<mapsto> b))
           (outPath j) = Some bs \<and>
         Size (snd (process_part000 P e j fs)) = int (length bs)))"
  by (auto simp: process_part000_def Let_def split: option.splits)

text \<open>
  C6 fails in \<^verbatim>\<open>main.go\<close>. \<^verbatim>\<open>process\<close> of \<^verbatim>\<open>main.go\<close> never reads the context of the Job:
  its result is the same whatever the context is and whatever \<^verbatim>\<open>ctx.Err()\<close> would return,
  so a run that ended by deadline or cancellation is reported as \<^verbatim>\<open>ffmpeg: <stderr>\<close> like
  any other failure, where \<^verbatim>\<open>part_000\<close> reports \<^verbatim>\<open>ffmpeg timed out\<close> and
  \<^verbatim>\<open>request cancelled\<close>. The Job the handler of \<^verbatim>\<open>main.go\<close> sends carries the request's own
  context, without a deadline.
\<close>

theorem context_ignored_main:
  "process P (e \<lparr> ctxErr := c \<rparr>) (j \<lparr> ctx := k \<rparr>) fs = process P e j fs \<and>
   Err (snd (process P (exampleEnv \<lparr> runFailed := True, stderr := ''killed'',
                                      ctxErr := DeadlineExceeded \<rparr>) j fs)) = Some ''ffmpeg: killed'' \<and>
   Err (snd (process P (exampleEnv \<lparr> runFailed := True, stderr := ''killed'',
                                      ctxErr := Canceled \<rparr>) j fs)) = Some ''ffmpeg: killed'' \<and>
   Err (snd (process_part000 P (exampleEnv \<lparr> runFailed := True, stderr := ''killed'',
                                      ctxErr := DeadlineExceeded \<rparr>) j fs)) = Some ''ffmpeg timed out'' \<and>
   Err (snd (process_part000 P (exampleEnv \<lparr> runFailed := True, stderr := ''killed'',
                                      ctxErr := Canceled \<rparr>) j fs)) = Some ''request cancelled'' \<and>
   map ctx (enqueued (normalizeHandler P exampleEnv ch (exampleRequest riffHeader) emptyStore)) =
     [RequestContext]"
  by (simp add: process_def process_part000_def exampleEnv_def Let_def normalizeHandler_def
        validated_example emptyStore_def split: option.splits prod.splits)

text \<open>
  Beyond C6: in \<^verbatim>\<open>part_000\<close> a failed run yields one of three different messages, chosen
  by \<^verbatim>\<open>job.ctx.Err()\<close>: deadline exceeded, canceled, or the transcoder's own failure with
  its standard error; and the Job the handler sends carries a context with the deadline of
  3 seconds.
\<close>

theorem failure_discrimination_part000:
  assumes "writeFault e = None" and "runFailed e"
  shows "Err (snd (process_part000 P e j fs)) =
           Some (case ctxErr e of
                   DeadlineExceeded \<Rightarrow> ''ffmpeg timed out''
                 | Canceled \<Rightarrow> ''request cancelled''
                 | CtxNil \<Rightarrow> ''ffmpeg failed: '' @ stderr e) \<and>
         ''ffmpeg failed: '' @ stderr e \<noteq> ''ffmpeg timed out'' \<and>
         ''ffmpeg failed: '' @ stderr e \<noteq> ''request cancelled'' \<and>
         map ctx (enqueued (normalizeHandler_part000 P e ch (exampleRequest riffHeader) emptyStore))
           = [WithTimeout 3 RequestContext]"
  using assms
  by (cases "ctxErr e")
     (simp_all add: process_part000_def Let_def normalizeHandler_part000_def validated_example
        emptyStore_def split: option.splits prod.splits)

theorem failure_discrimination_part000_witness:
  "\<forall>j fs.
     Err (snd (process_part000 examplePlatform (failingEnv \<lparr> ctxErr := DeadlineExceeded \<rparr>) j fs))
       = Some ''ffmpeg timed out'' \<and>
     Err (snd (process_part000 examplePlatform (failingEnv \<lparr> ctxErr := Canceled \<rparr>) j fs))
       = Some ''request cancelled'' \<and>
     Err (snd (process_part000 examplePlatform failingEnv j fs)) = Some ''ffmpeg failed: killed''"
proof (intro allI)
  fix j :: Job and fs :: fsys
  have a: "writeFault (failingEnv \<lparr> ctxErr := c \<rparr>) = None" "runFailed (failingEnv \<lparr> ctxErr := c \<rparr>)"
    "writeFault failingEnv = None" "runFailed failingEnv" for c
    by (simp_all add: failingEnv_def exampleEnv_def)
  from failure_discrimination_part000 [OF a(1,2), where P = examplePlatform and j = j and fs = fs
      and c1 = DeadlineExceeded]
    failure_discrimination_part000 [OF a(1,2), where P = examplePlatform and j = j and fs = fs
      and c1 = Canceled]
    failure_discrimination_part000 [OF a(3,4), where P = examplePlatform and j = j and fs = fs]
  show "Err (snd (process_part000 examplePlatform (failingEnv \<lparr> ctxErr := DeadlineExceeded \<rparr>) j fs))
       = Some ''ffmpeg timed out'' \<and>
     Err (snd (process_part000 examplePlatform (failingEnv \<lparr> ctxErr := Canceled \<rparr>) j fs))
       = Some ''request cancelled'' \<and>
     Err (snd (process_part000 examplePlatform failingEnv j fs)) = Some ''ffmpeg failed: killed''"
    by (simp add: failingEnv_def exampleEnv_def)
qed

text \<open>
  C9 fails in \<^verbatim>\<open>main.go\<close>, though not at the slice. An upload of five bytes passes
  validation (the slice \<^verbatim>\<open>data[:16]\<close> is bounded by the capacity of the buffer, 512 here, not
  by its length), but when the claim marker of its content exists and the entry does not,
  the handler calls \<^verbatim>\<open>respond\<close> on the missing entry and panics on the nil \<^verbatim>\<open>FileInfo\<close>:
  no response is written.
\<close>

theorem lost_claim_panics_main:
  "validate (exampleRequest [1, 2, 3, 4, 5]) = Inr (''a.wav'', ''.wav'', [1, 2, 3, 4, 5]) \<and>
   outcome (normalizeHandler P exampleEnv ch (exampleRequest [1, 2, 3, 4, 5])
              (emptyStore (tmpPathOf (sha256Hex P [1, 2, 3, 4, 5]) \<mapsto> []))) =
     Panicked NilDereference"
proof -
  have v: "validate (exampleRequest [1, 2, 3, 4, 5]) = Inr (''a.wav'', ''.wav'', [1, 2, 3, 4, 5])"
    by (rule exampleRequest_valid) (simp add: MaxUploadSize_def)
  then show ?thesis
    by (simp add: normalizeHandler_def process_def exampleEnv_def emptyStore_def
       Let_def Rename_def Remove_def respond_def tmpPathOf_def [symmetric])
qed

text \<open>
  Beyond C9: the debug slice. For an upload that passes the checks before it, the slice
  expression panics exactly when the capacity of the buffer is below 16, whatever the length
  of the body. With a capacity of at least 16 (the buffer of \<^verbatim>\<open>io.ReadAll\<close> starts at 512)
  neither handler has a bounds violation, and the handler of \<^verbatim>\<open>part_000\<close> ends with a
  response in every case.
\<close>

theorem no_bounds_violation:
  assumes "formErr r = None" and "fileField r = Some u"
    and "ToLower (Ext (Filename u)) = ''.mp3'' \<or> ToLower (Ext (Filename u)) = ''.wav''"
    and "readErr u = None" and "length (body u) \<le> MaxUploadSize"
  shows "(16 \<le> bufCap u \<longrightarrow>
            validate r = Inr (Filename u, ToLower (Ext (Filename u)), body u) \<and>
            outcome (normalizeHandler P e ch r fs) \<noteq> Panicked SliceBoundsOutOfRange \<and>
            (\<forall>p. outcome (normalizeHandler_part000 P e ch r fs) \<noteq> Panicked p)) \<and>
         (bufCap u < 16 \<longrightarrow>
            outcome (normalizeHandler P e ch r fs) = Panicked SliceBoundsOutOfRange \<and>
            outcome (normalizeHandler_part000 P e ch r fs) = Panicked SliceBoundsOutOfRange)"
proof (intro conjI impI)
  assume c: "16 \<le> bufCap u"
  from validate_accept [OF assms c]
  show v: "validate r = Inr (Filename u, ToLower (Ext (Filename u)), body u)" .
  show "outcome (normalizeHandler P e ch r fs) \<noteq> Panicked SliceBoundsOutOfRange"
    by (auto simp: normalizeHandler_def v Let_def respond_def httpError_def
          split: option.splits prod.splits)
  have x: "ToLower (Ext (Filename u)) = ''.mp3'' \<or> ToLower (Ext (Filename u)) = ''.wav''"
    by (rule assms(3))
  note ne = tmpInput_neq_tmp_app [OF x, of "TempDir P" "sha256Hex P (body u)" "sha256Hex P (body u)"]
  show "\<forall>p. outcome (normalizeHandler_part000 P e ch r fs) \<noteq> Panicked p"
    using ne
    by (auto simp: normalizeHandler_part000_def v Let_def respond_def httpError_def
          process_part000_def Rename_def Remove_def split: option.splits prod.splits if_splits)
next
  assume "bufCap u < 16"
  with assms have "validate r = Inl (Panicked SliceBoundsOutOfRange)"
    by (auto simp: validate_def Let_def)
  then show "outcome (normalizeHandler P e ch r fs) = Panicked SliceBoundsOutOfRange"
    and "outcome (normalizeHandler_part000 P e ch r fs) = Panicked SliceBoundsOutOfRange"
    by (simp_all add: normalizeHandler_def normalizeHandler_part000_def)
qed

theorem no_bounds_violation_witness:
  "length (body (exampleUpload [1, 2, 3, 4, 5])) < 16 \<and>
   validate (exampleRequest [1, 2, 3, 4, 5]) = Inr (''a.wav'', ''.wav'', [1, 2, 3, 4, 5]) \<and>
   outcome (normalizeHandler_part000 examplePlatform exampleEnv 1
              (exampleRequest [1, 2, 3, 4, 5]) emptyStore) \<noteq> Panicked SliceBoundsOutOfRange \<and>
   outcome (normalizeHandler examplePlatform exampleEnv 1
              (exampleRequest [1, 2, 3, 4, 5]) emptyStore) \<noteq> Panicked SliceBoundsOutOfRange"
proof -
  let ?u = "exampleUpload [1, 2, 3, 4, 5]"
  let ?r = "exampleRequest [1, 2, 3, 4, 5]"
  have 1: "formErr ?r = None" and 2: "fileField ?r = Some ?u"
    by (simp_all add: exampleRequest_def)
  have 7: "ToLower (Ext (Filename ?u)) = ''.wav''"
    by (simp add: exampleUpload_def Ext_def ToLower_def lowerChar_def)
  then have 3: "ToLower (Ext (Filename ?u)) = ''.mp3'' \<or> ToLower (Ext (Filename ?u)) = ''.wav''"
    by simp
  have 4: "readErr ?u = None" and 5: "length (body ?u) \<le> MaxUploadSize" and 6: "16 \<le> bufCap ?u"
    by (simp_all add: exampleUpload_def MaxUploadSize_def)
  from no_bounds_violation [OF 1 2 3 4 5, where P = examplePlatform and e = exampleEnv and ch = 1
      and fs = emptyStore] 6
  show ?thesis unfolding 7 by (simp add: exampleUpload_def)
qed

section \<open>The claims settled on the system of concurrent requests\<close>

text \<open>
  Beyond C1: what the claim of \<^verbatim>\<open>main.go\<close> does ensure. In every state the \<^verbatim>\<open>main.go\<close>
  system reaches, for every content hash at most one Job is in flight (queued or being run);
  the handler that sent a Job in flight holds the claim of its hash and the claim marker is
  in place; and no two requests hold the claim of one hash.
\<close>

theorem single_flight_main:
  assumes "reachable MainGo P s"
  shows "length (filter (\<lambda>j. hash j = k) (inFlight s)) \<le> 1 \<and>
         (\<forall>j \<in> set (inFlight s).
            holdsClaim s (result j) (hash j) \<and> files s (tmpPathOf (hash j)) \<noteq> None) \<and>
         (\<forall>n m. holdsClaim s n k \<and> holdsClaim s m k \<longrightarrow> n = m)"
proof -
  note I = claimInvD [OF reachable_inv [OF assms]]
  have holder: "holdsClaim s (result j) (hash j)" if "j \<in> set (inFlight s)" for j
  proof -
    from awaitedD [OF I(4) that] obtain a where "handlers s (result j) = Some (AtReceive a j)" ..
    then show ?thesis by (simp add: holdsClaim_def)
  qed
  have same: "i = j" if "i \<in> set (inFlight s)" "j \<in> set (inFlight s)" "hash i = hash j" for i j
  proof -
    from holder [OF that(1)] that(3) have "holdsClaim s (result i) (hash j)" by simp
    from exclusiveD [OF I(3) this holder [OF that(2)]] have r: "result i = result j" .
    from awaitedD [OF I(4) that(1)] obtain a where a: "handlers s (result i) = Some (AtReceive a i)" ..
    from awaitedD [OF I(4) that(2)] obtain b where b: "handlers s (result j) = Some (AtReceive b j)" ..
    from a b have "AtReceive a i = AtReceive b j" unfolding r by simp
    then show ?thesis by simp
  qed
  have d: "distinct (inFlight s)" using I(5) by (simp add: distinct_map)
  have u: "\<forall>i \<in> set (inFlight s). \<forall>j \<in> set (inFlight s). hash i = k \<and> hash j = k \<longrightarrow> i = j"
  proof (intro ballI impI)
    fix i j assume "i \<in> set (inFlight s)" "j \<in> set (inFlight s)" "hash i = k \<and> hash j = k"
    then show "i = j" using same [of i j] by simp
  qed
  have one: "length (filter (\<lambda>j. hash j = k) (inFlight s)) \<le> 1"
    using d u by (rule at_most_one)
  have two: "\<forall>j \<in> set (inFlight s).
            holdsClaim s (result j) (hash j) \<and> files s (tmpPathOf (hash j)) \<noteq> None"
  proof
    fix j assume j: "j \<in> set (inFlight s)"
    from holder [OF j] markersKeptD [OF I(2) holder [OF j]]
    show "holdsClaim s (result j) (hash j) \<and> files s (tmpPathOf (hash j)) \<noteq> None" by simp
  qed
  have three: "\<forall>n m. holdsClaim s n k \<and> holdsClaim s m k \<longrightarrow> n = m"
  proof (intro allI impI)
    fix n m assume "holdsClaim s n k \<and> holdsClaim s m k"
    then show "n = m" using exclusiveD [OF I(3), of n k m] by simp
  qed
  from one two three show ?thesis by (intro conjI) assumption+
qed

theorem single_flight_main_witness:
  "\<exists>s. exec MainGo examplePlatform claimRun (initial emptyStore) = Some s \<and>
       map hash (inFlight s) = [''10''] \<and>
       length (filter (\<lambda>j. hash j = ''10'') (inFlight s)) \<le> 1 \<and>
       holdsClaim s 1 ''10'' \<and> \<not> holdsClaim s 2 ''10'' \<and>
       files s (tmpPathOf ''10'') \<noteq> None"
proof -
  from claim_run obtain s where s: "exec MainGo examplePlatform claimRun (initial emptyStore) = Some s"
    and f: "map hash (inFlight s) = [''10'']" "map result (inFlight s) = [1]"
      "holdsClaim s 1 ''10''" "\<not> holdsClaim s 2 ''10''"
    by (elim exE conjE)
  from f(1,2) obtain j where j: "inFlight s = [j]" "hash j = ''10''" "result j = 1" by auto
  from single_flight_main [OF reachableI [OF s], of "''10''"] j
  have g: "length (filter (\<lambda>j. hash j = ''10'') (inFlight s)) \<le> 1"
    "files s (tmpPathOf ''10'') \<noteq> None"
    by simp_all
  show ?thesis
    by (rule exI [of _ s]) (use s f g in simp)
qed


text \<open>
  C1 fails in both variants. In \<^verbatim>\<open>main.go\<close>, two requests with the same bytes arrive together
  and both find no entry; the second claims, is transcoded, finalizes and is answered before
  the first tries to claim; the first then gets the claim, since the marker has been renamed
  away, and the transcoder runs a second time for the same content. Both callers are
  answered \<^verbatim>\<open>done\<close>, with the sizes of two different outputs. In \<^verbatim>\<open>part_000\<close>, which has no
  claim, the Jobs of both requests are queued together and the transcoder runs twice as
  well. This holds for every digest function and temporary directory.
\<close>

theorem single_flight_broken:
  "(\<exists>s. exec MainGo P (raceRun @ raceRunRest) (initial emptyStore) = Some s \<and>
       invocations s (sha256Hex P riffHeader) = 2 \<and>
       (\<exists>ra rb. handlers s 1 = Some (Finished (Responded ra)) \<and>
                handlers s 2 = Some (Finished (Responded rb)) \<and>
                status ra = ''done'' \<and> status rb = ''done'' \<and>
                sizeBytes ra = 2 \<and> sizeBytes rb = 1)) \<and>
   (\<exists>s. exec Part000 P (take 6 raceRun_part000) (initial emptyStore) = Some s \<and>
       map hash (jobQueue s) = [sha256Hex P riffHeader, sha256Hex P riffHeader] \<and>
       map result (jobQueue s) = [1, 2]) \<and>
   (\<exists>s t. exec Part000 P raceRun_part000 (initial emptyStore) = Some s \<and>
       exec Part000 P raceRunRest_part000 s = Some t \<and>
       invocations t (sha256Hex P riffHeader) = 2)"
proof (intro conjI)
  from race_second [of P] obtain s where
    "exec MainGo P (raceRun @ raceRunRest) (initial emptyStore) = Some s"
    "invocations s (sha256Hex P riffHeader) = 2"
    "handlers s 1 = Some (Finished (Responded
          \<lparr> fileId = sha256Hex P riffHeader, originalFilename = ''a.wav'',
            normalizedFilename = Base (outPathOf (sha256Hex P riffHeader)),
            sampleRate = 16000, channels = 1, encoding = ''pcm_s16le'', sizeBytes = 2,
            status = ''done'' \<rparr>))"
    "handlers s 2 = Some (Finished (Responded
          \<lparr> fileId = sha256Hex P riffHeader, originalFilename = ''a.wav'',
            normalizedFilename = Base (outPathOf (sha256Hex P riffHeader)),
            sampleRate = 16000, channels = 1, encoding = ''pcm_s16le'', sizeBytes = 1,
            status = ''done'' \<rparr>))"
    by (elim exE conjE)
  then show "\<exists>s. exec MainGo P (raceRun @ raceRunRest) (initial emptyStore) = Some s \<and>
       invocations s (sha256Hex P riffHeader) = 2 \<and>
       (\<exists>ra rb. handlers s 1 = Some (Finished (Responded ra)) \<and>
                handlers s 2 = Some (Finished (Responded rb)) \<and>
                status ra = ''done'' \<and> status rb = ''done'' \<and>
                sizeBytes ra = 2 \<and> sizeBytes rb = 1)"
    by (intro exI [of _ s]) simp
  from race_part000_queue [of P]
  show "\<exists>s. exec Part000 P (take 6 raceRun_part000) (initial emptyStore) = Some s \<and>
       map hash (jobQueue s) = [sha256Hex P riffHeader, sha256Hex P riffHeader] \<and>
       map result (jobQueue s) = [1, 2]"
    by (elim exE conjE, intro exI conjI) assumption+
  from race_part000 [of P]
  show "\<exists>s t. exec Part000 P raceRun_part000 (initial emptyStore) = Some s \<and>
       exec Part000 P raceRunRest_part000 s = Some t \<and>
       invocations t (sha256Hex P riffHeader) = 2"
    by (elim exE conjE, intro exI conjI) assumption+
qed

text \<open>
  C2 fails in both variants, by the same window. In the runs above the second request is
  answered \<^verbatim>\<open>done\<close> with size 1 before the third request exists; the first request then
  replaces the entry; the third request, arriving when nothing is in flight any more, is
  answered \<^verbatim>\<open>skipped\<close> with the same file identifier and size 2.
\<close>

theorem resubmission_after_race:
  "(\<exists>s t ra rc. exec MainGo P raceRun (initial emptyStore) = Some s \<and>
       handlers s 2 = Some (Finished (Responded ra)) \<and> status ra = ''done'' \<and>
       handlers s 3 = None \<and>
       exec MainGo P (raceRunRest @ laterRun) s = Some t \<and>
       handlers t 3 = Some (Finished (Responded rc)) \<and> status rc = ''skipped'' \<and>
       fileId rc = fileId ra \<and> sizeBytes ra = 1 \<and> sizeBytes rc = 2 \<and>
       inFlight t = []) \<and>
   (\<exists>s t ra rc. exec Part000 P raceRun_part000 (initial emptyStore) = Some s \<and>
       handlers s 2 = Some (Finished (Responded ra)) \<and> status ra = ''done'' \<and>
       handlers s 3 = None \<and>
       exec Part000 P (raceRunRest_part000 @ laterRun) s = Some t \<and>
       handlers t 3 = Some (Finished (Responded rc)) \<and> status rc = ''skipped'' \<and>
       fileId rc = fileId ra \<and> sizeBytes ra = 1 \<and> sizeBytes rc = 2 \<and>
       inFlight t = [])"
proof
  from later_main [of P] obtain s t where
    "exec MainGo P raceRun (initial emptyStore) = Some s"
    "handlers s 2 = Some (Finished (Responded
          \<lparr> fileId = sha256Hex P riffHeader, originalFilename = ''a.wav'',
            normalizedFilename = Base (outPathOf (sha256Hex P riffHeader)),
            sampleRate = 16000, channels = 1, encoding = ''pcm_s16le'', sizeBytes = 1,
            status = ''done'' \<rparr>))"
    "handlers s 3 = None"
    "exec MainGo P (raceRunRest @ laterRun) s = Some t"
    "jobQueue t = []" "running t = []"
    "handlers t 3 = Some (Finished (Responded
          \<lparr> fileId = sha256Hex P riffHeader, originalFilename = ''a.wav'',
            normalizedFilename = Base (outPathOf (sha256Hex P riffHeader)),
            sampleRate = 16000, channels = 1, encoding = ''pcm_s16le'', sizeBytes = 2,
            status = ''skipped'' \<rparr>))"
    by (elim exE conjE)
  then show "\<exists>s t ra rc. exec MainGo P raceRun (initial emptyStore) = Some s \<and>
       handlers s 2 = Some (Finished (Responded ra)) \<and> status ra = ''done'' \<and>
       handlers s 3 = None \<and>
       exec MainGo P (raceRunRest @ laterRun) s = Some t \<and>
       handlers t 3 = Some (Finished (Responded rc)) \<and> status rc = ''skipped'' \<and>
       fileId rc = fileId ra \<and> sizeBytes ra = 1 \<and> sizeBytes rc = 2 \<and>
       inFlight t = []"
    by (intro exI [of _ s] exI [of _ t]) (simp add: inFlight_def)
  from later_part000 [of P] obtain s t where
    "exec Part000 P raceRun_part000 (initial emptyStore) = Some s"
    "handlers s 2 = Some (Finished (Responded
          \<lparr> fileId = sha256Hex P riffHeader, originalFilename = ''a.wav'',
            normalizedFilename = Base (outPathOf (sha256Hex P riffHeader)),
            sampleRate = 16000, channels = 1, encoding = ''pcm_s16le'', sizeBytes = 1,
            status = ''done'' \<rparr>))"
    "handlers s 3 = None"
    "exec Part000 P (raceRunRest_part000 @ laterRun) s = Some t"
    "jobQueue t = []" "running t = []"
    "handlers t 3 = Some (Finished (Responded
          \<lparr> fileId = sha256Hex P riffHeader, originalFilename = ''a.wav'',
            normalizedFilename = Base (outPathOf (sha256Hex P riffHeader)),
            sampleRate = 16000, channels = 1, encoding = ''pcm_s16le'', sizeBytes = 2,
            status = ''skipped'' \<rparr>))"
    by (elim exE conjE)
  then show "\<exists>s t ra rc. exec Part000 P raceRun_part000 (initial emptyStore) = Some s \<and>
       handlers s 2 = Some (Finished (Responded ra)) \<and> status ra = ''done'' \<and>
       handlers s 3 = None \<and>
       exec Part000 P (raceRunRest_part000 @ laterRun) s = Some t \<and>
       handlers t 3 = Some (Finished (Responded rc)) \<and> status rc = ''skipped'' \<and>
       fileId rc = fileId ra \<and> sizeBytes ra = 1 \<and> sizeBytes rc = 2 \<and>
       inFlight t = []"
    by (intro exI [of _ s] exI [of _ t]) (simp add: inFlight_def)
qed

text \<open>
  C8 fails in both variants. In the runs above the entry of the content is finalized with
  the output of the first transcoder run, and the rename of the other request, which had
  looked for the entry before it was there, replaces it with the output of the second run.
\<close>

theorem finalized_entry_rewritten:
  "(\<exists>s t. exec MainGo P raceRun (initial emptyStore) = Some s \<and>
          files s (outPathOf (sha256Hex P riffHeader)) = Some [1] \<and>
          exec MainGo P raceRunRest s = Some t \<and>
          files t (outPathOf (sha256Hex P riffHeader)) = Some [2, 2]) \<and>
   (\<exists>s t. exec Part000 P raceRun_part000 (initial emptyStore) = Some s \<and>
          files s (outPathOf (sha256Hex P riffHeader)) = Some [1] \<and>
          exec Part000 P raceRunRest_part000 s = Some t \<and>
          files t (outPathOf (sha256Hex P riffHeader)) = Some [2, 2])"
proof
  from race_first [of P] obtain s where s: "exec MainGo P raceRun (initial emptyStore) = Some s"
    "files s (outPathOf (sha256Hex P riffHeader)) = Some [1]" by blast
  from race_second [of P] s(1) obtain t where "exec MainGo P raceRunRest s = Some t"
    "files t (outPathOf (sha256Hex P riffHeader)) = Some [2, 2]"
    by (auto simp: exec_append)
  with s show "\<exists>s t. exec MainGo P raceRun (initial emptyStore) = Some s \<and>
          files s (outPathOf (sha256Hex P riffHeader)) = Some [1] \<and>
          exec MainGo P raceRunRest s = Some t \<and>
          files t (outPathOf (sha256Hex P riffHeader)) = Some [2, 2]" by blast
  from race_part000 [of P]
  show "\<exists>s t. exec Part000 P raceRun_part000 (initial emptyStore) = Some s \<and>
          files s (outPathOf (sha256Hex P riffHeader)) = Some [1] \<and>
          exec Part000 P raceRunRest_part000 s = Some t \<and>
          files t (outPathOf (sha256Hex P riffHeader)) = Some [2, 2]" by blast
qed

text \<open>
  The two embeddings agree: every run of a handler on its own, as the functions
  \<open>normalizeHandler\<close> and \<open>normalizeHandler_part000\<close> compute it, is a run of the system
  in which only this request is served.
\<close>

theorem handler_is_a_run:
  "(\<exists>as s. exec MainGo P as (initial fs) = Some s \<and>
      handlers s n = Some (Finished (outcome (normalizeHandler P e n r fs))) \<and>
      files s = store (normalizeHandler P e n r fs)) \<and>
   (\<exists>as s. exec Part000 P as (initial fs) = Some s \<and>
      handlers s n = Some (Finished (outcome (normalizeHandler_part000 P e n r fs))) \<and>
      files s = store (normalizeHandler_part000 P e n r fs))"
proof (cases "validate r")
  case (Inl out)
  have "exec MainGo P [Arrive n r] (initial fs) =
          Some ((initial fs) \<lparr> handlers := (handlers (initial fs))(n \<mapsto> Finished out) \<rparr>)"
    "exec Part000 P [Arrive n r] (initial fs) =
          Some ((initial fs) \<lparr> handlers := (handlers (initial fs))(n \<mapsto> Finished out) \<rparr>)"
    by (simp_all add: admit_def Inl initial_def)
  then show ?thesis
    by (auto simp: normalizeHandler_def normalizeHandler_part000_def Inl initial_def
          intro!: exI [of _ "[Arrive n r]"])
next
  case (Inr t)
  obtain a x d where t: "t = (a, x, d)" by (cases t) auto
  note v = Inr [unfolded t]
  let ?h = "sha256Hex P d"
  note sd = admit_def v initial_def jobContext_def QueueCap_def WorkerCount_def Let_def
      normalizeHandler_def normalizeHandler_part000_def tmpPathOf_def
  have main: "\<exists>as s. exec MainGo P as (initial fs) = Some s \<and>
      handlers s n = Some (Finished (outcome (normalizeHandler P e n r fs))) \<and>
      files s = store (normalizeHandler P e n r fs)"
  proof -
    consider (skip) "fs (outPathOf ?h) \<noteq> None"
      | (fault) "fs (outPathOf ?h) = None" "openFault e \<noteq> None"
      | (lost) "fs (outPathOf ?h) = None" "openFault e = None" "fs (outPathOf ?h @ ''.tmp'') \<noteq> None"
      | (failed) "fs (outPathOf ?h) = None" "openFault e = None" "fs (outPathOf ?h @ ''.tmp'') = None"
          "Err (snd (process P e \<lparr> ctx = RequestContext, data = d, hash = ?h, ext = x,
                 outPath = outPathOf ?h @ ''.tmp'', result = n \<rparr> (fs(outPathOf ?h @ ''.tmp'' \<mapsto> [])))) \<noteq> None"
      | (ok) "fs (outPathOf ?h) = None" "openFault e = None" "fs (outPathOf ?h @ ''.tmp'') = None"
          "Err (snd (process P e \<lparr> ctx = RequestContext, data = d, hash = ?h, ext = x,
                 outPath = outPathOf ?h @ ''.tmp'', result = n \<rparr> (fs(outPathOf ?h @ ''.tmp'' \<mapsto> [])))) = None"
      by blast
    then show ?thesis
    proof cases
      case skip
      then show ?thesis
        by (intro exI [of _ "[Arrive n r, Handler n e, Handler n e]"]) (auto simp: sd)
    next
      case fault
      then show ?thesis
        by (intro exI [of _ "[Arrive n r, Handler n e, Handler n e]"]) (auto simp: sd)
    next
      case lost
      then show ?thesis
        by (intro exI [of _ "[Arrive n r, Handler n e, Handler n e, Handler n e]"]) (auto simp: sd)
    next
      case failed
      then show ?thesis
        by (intro exI [of _ "[Arrive n r, Handler n e, Handler n e, Handler n e, Take,
              Complete n e, Handler n e, Handler n e]"])
           (auto simp: sd split: prod.splits)
    next
      case ok
      then show ?thesis
        by (intro exI [of _ "[Arrive n r, Handler n e, Handler n e, Handler n e, Take,
              Complete n e, Handler n e, Handler n e, Handler n e]"])
           (auto simp: sd split: prod.splits)
    qed
  qed
  have part: "\<exists>as s. exec Part000 P as (initial fs) = Some s \<and>
      handlers s n = Some (Finished (outcome (normalizeHandler_part000 P e n r fs))) \<and>
      files s = store (normalizeHandler_part000 P e n r fs)"
  proof -
    let ?res = "snd (process_part000 P e \<lparr> ctx = WithTimeout 3 RequestContext, data = d, hash = ?h,
        ext = x, outPath = outPathOf ?h @ ''.tmp'', result = n \<rparr> fs)"
    let ?fs2 = "fst (process_part000 P e \<lparr> ctx = WithTimeout 3 RequestContext, data = d, hash = ?h,
        ext = x, outPath = outPathOf ?h @ ''.tmp'', result = n \<rparr> fs)"
    consider (skip) "fs (outPathOf ?h) \<noteq> None"
      | (failed) "fs (outPathOf ?h) = None" "Err ?res \<noteq> None"
      | (stuck) "fs (outPathOf ?h) = None" "Err ?res = None"
          "snd (Rename (renameFault e) ?fs2 (outPathOf ?h @ ''.tmp'') (outPathOf ?h)) \<noteq> None"
      | (ok) "fs (outPathOf ?h) = None" "Err ?res = None"
          "snd (Rename (renameFault e) ?fs2 (outPathOf ?h @ ''.tmp'') (outPathOf ?h)) = None"
      by blast
    then show ?thesis
    proof cases
      case skip
      then show ?thesis
        by (intro exI [of _ "[Arrive n r, Handler n e, Handler n e]"]) (auto simp: sd)
    next
      case failed
      then show ?thesis
        by (intro exI [of _ "[Arrive n r, Handler n e, Handler n e, Take,
              Complete n e, Handler n e, Handler n e]"])
           (auto simp: sd split: prod.splits)
    next
      case stuck
      then show ?thesis
        by (intro exI [of _ "[Arrive n r, Handler n e, Handler n e, Take,
              Complete n e, Handler n e, Handler n e, Handler n e]"])
           (auto simp: sd split: prod.splits)
    next
      case ok
      then show ?thesis
        by (intro exI [of _ "[Arrive n r, Handler n e, Handler n e, Take,
              Complete n e, Handler n e, Handler n e, Handler n e]"])
           (auto simp: sd split: prod.splits)
    qed
  qed
  from main part show ?thesis ..
qed

end
